theory Spec2Isabelle
  imports Main "HOL-Library.Monad_Syntax" "HOL-Library.Log_Nat"
begin

section \<open>Arbitrary-precision integers (BN.js)\<close>

text \<open>
  The SDK computes on \<open>BN\<close> values: signed integers of unbounded size, modelled as
  \<open>int\<close>. \<open>add\<close>, \<open>sub\<close>, \<open>mul\<close>, \<open>abs\<close> and the comparisons are the
  mathematical ones. \<open>a.div(b)\<close> throws when \<open>b\<close> is zero and otherwise truncates the
  quotient toward zero (the quotient of the absolute values, with the sign of the
  operands restored), which differs from HOL's flooring \<open>div\<close> on negative quotients.

  Every function below that can throw returns an \<open>option\<close>: \<open>None\<close> stands for a thrown
  exception (a BN.js assertion, the SDK's \<open>assert\<close>), and for a JavaScript number that is
  not finite.
\<close>

definition bn_quot :: "int \<Rightarrow> int \<Rightarrow> int" where
  "bn_quot a b = sgn a * sgn b * (abs a div abs b)"

definition bn_div :: "int \<Rightarrow> int \<Rightarrow> int option" where
  "bn_div a b = (if b = 0 then None else Some (bn_quot a b))"

section \<open>JavaScript numbers\<close>

text \<open>
  A JavaScript \<open>number\<close> is an IEEE 754 binary64 value. The finite ones are rationals,
  and each arithmetic operation returns the exact result rounded to the nearest value
  with a 53-bit significand, ties to the even significand. \<open>fl\<close> is that rounding.
  The exponent range of binary64 is not modelled: apart from the base spread, the
  numbers handled by the spread functions are quotients and products of a few integers
  below \<open>2\<^sup>5\<^sup>3\<close>, far from both overflow and the subnormal range. A division by zero,
  whose result is an infinity or NaN, is \<open>None\<close>.
\<close>

type_synonym number = rat

definition ilog2 :: "rat \<Rightarrow> int" where
  \<comment> \<open>\<open>\<lfloor>log\<^sub>2 x\<rfloor>\<close> for \<open>x > 0\<close>, from the bit lengths of numerator and denominator\<close>
  "ilog2 x = (case quotient_of x of (p, q) \<Rightarrow>
     let d = bitlen p - bitlen q in if power_int 2 d \<le> x then d else d - 1)"

definition roundTiesToEven :: "rat \<Rightarrow> int" where
  "roundTiesToEven y =
     (let f = \<lfloor>y\<rfloor>; r = y - of_int f
      in if r < 1 / 2 then f else if 1 / 2 < r then f + 1 else if even f then f else f + 1)"

definition fl :: "rat \<Rightarrow> number" where
  "fl x = (if x = 0 then 0
           else let q = power_int 2 (ilog2 (abs x) - 52)
                in sgn x * of_int (roundTiesToEven (abs x / q)) * q)"

definition fadd :: "number \<Rightarrow> number \<Rightarrow> number" where
  "fadd a b = fl (a + b)"

definition fmul :: "number \<Rightarrow> number \<Rightarrow> number" where
  "fmul a b = fl (a * b)"

definition fdiv :: "number \<Rightarrow> number \<Rightarrow> number option" where
  "fdiv a b = (if b = 0 then None else Some (fl (a / b)))"

definition lit_1_05 :: number where
  \<comment> \<open>the literal \<open>1.05\<close>\<close>
  "lit_1_05 = fl (105 / 100)"

definition toNumber :: "int \<Rightarrow> number option" where
  \<comment> \<open>\<open>BN.toNumber\<close>: asserts that the value has at most 53 bits\<close>
  "toNumber x = (if abs x < 2 ^ 53 then Some (of_int x) else None)"

definition bn_of_number :: "number \<Rightarrow> int option" where
  \<comment> \<open>\<open>new BN(x)\<close> for a number: the sign is split off, the magnitude must be below
      \<open>2^53\<close> and its fraction is dropped by the bitwise masks\<close>
  "bn_of_number x =
     (if abs x < 2 ^ 53 then Some (if x < 0 then - \<lfloor>- x\<rfloor> else \<lfloor>x\<rfloor>) else None)"

section \<open>Data model\<close>

text \<open>
  The fixed-point scaling constants are imported by the source from
  \<open>constants/numericConstants\<close>; they are a parameter of every function that reads one.
\<close>

record numericConstants =
  MARK_PRICE_PRECISION :: int
  PEG_PRECISION :: int
  BID_ASK_SPREAD_PRECISION :: int
  AMM_TO_QUOTE_PRECISION_RATIO :: int
  AMM_TIMES_PEG_TO_QUOTE_PRECISION_RATIO :: int
  QUOTE_PRECISION :: int

text \<open>
  Modelled from the spec: the types \<open>PositionDirection\<close>, \<open>SwapDirection\<close>, \<open>AMM\<close> and
  \<open>OraclePriceData\<close> are imported from \<open>../types\<close>, which is not among the sources.
  The two directions are closed enumerations (\<open>isVariant(direction, 'long')\<close> is
  \<open>direction = LONG\<close>). Of \<open>AMM\<close> and \<open>OraclePriceData\<close> the fields that the functions
  read are kept: the reserves and the accounting fields are \<open>BN\<close>, \<open>baseSpread\<close> and
  \<open>curveUpdateIntensity\<close> are JavaScript numbers. \<open>AssetType\<close> is declared in the source
  as \<open>'quote' | 'base'\<close>.
\<close>

datatype PositionDirection = LONG | SHORT

datatype SwapDirection = ADD | REMOVE

datatype AssetType = Quote | Base

record AMM =
  baseAssetReserve :: int
  quoteAssetReserve :: int
  sqrtK :: int
  pegMultiplier :: int
  netBaseAssetAmount :: int
  terminalQuoteAssetReserve :: int
  totalExchangeFee :: int
  totalFeeMinusDistributions :: int
  quoteAssetAmountLong :: int
  quoteAssetAmountShort :: int
  baseSpread :: number
  curveUpdateIntensity :: number

record OraclePriceData =
  price :: int

text \<open>
  The three cost primitives are imported from \<open>./repeg\<close> and are used as opaque
  functions: a parameter of the functions that call them.
\<close>

record repegFunctions =
  calculateRepegCost :: "AMM \<Rightarrow> int \<Rightarrow> int"
  calculateAdjustKCost :: "AMM \<Rightarrow> int \<Rightarrow> int \<Rightarrow> int"
  calculateBudgetedPeg :: "AMM \<Rightarrow> int \<Rightarrow> int \<Rightarrow> int"

section \<open>Price and swap\<close>

definition calculatePrice :: "numericConstants \<Rightarrow> int \<Rightarrow> int \<Rightarrow> int \<Rightarrow> int option" where
  "calculatePrice c baseAssetReserves quoteAssetReserves pegMultiplier' =
     (if abs baseAssetReserves \<le> 0 then Some 0
      else do {
        scaled \<leftarrow> bn_div (quoteAssetReserves * MARK_PRICE_PRECISION c * pegMultiplier')
                         (PEG_PRECISION c);
        bn_div scaled baseAssetReserves
      })"

definition calculateSwapOutput ::
  "int \<Rightarrow> int \<Rightarrow> SwapDirection \<Rightarrow> int \<Rightarrow> (int \<times> int) option" where
  "calculateSwapOutput inputAssetReserve swapAmount swapDirection invariant =
     (let newInputAssetReserve =
            (if swapDirection = ADD then inputAssetReserve + swapAmount
             else inputAssetReserve - swapAmount)
      in do {
        newOutputAssetReserve \<leftarrow> bn_div invariant newInputAssetReserve;
        Some (newInputAssetReserve, newOutputAssetReserve)
      })"

definition getSwapDirection :: "AssetType \<Rightarrow> PositionDirection \<Rightarrow> SwapDirection" where
  "getSwapDirection inputAssetType positionDirection =
     (if positionDirection = LONG \<and> inputAssetType = Base then REMOVE
      else if positionDirection = SHORT \<and> inputAssetType = Quote then REMOVE
      else ADD)"

text \<open>The result is the pair \<open>(newQuoteAssetReserve, newBaseAssetReserve)\<close>.\<close>

definition calculateAmmReservesAfterSwap ::
  "numericConstants \<Rightarrow> AMM \<Rightarrow> AssetType \<Rightarrow> int \<Rightarrow> SwapDirection \<Rightarrow> (int \<times> int) option" where
  "calculateAmmReservesAfterSwap c amm inputAssetType swapAmount swapDirection =
     (if \<not> 0 \<le> swapAmount then None
      else if inputAssetType = Quote then do {
        swapAmount' \<leftarrow> bn_div (swapAmount * AMM_TIMES_PEG_TO_QUOTE_PRECISION_RATIO c)
                              (pegMultiplier amm);
        (newQuoteAssetReserve, newBaseAssetReserve) \<leftarrow>
          calculateSwapOutput (quoteAssetReserve amm) swapAmount' swapDirection
            (sqrtK amm * sqrtK amm);
        Some (newQuoteAssetReserve, newBaseAssetReserve)
      } else do {
        (newBaseAssetReserve, newQuoteAssetReserve) \<leftarrow>
          calculateSwapOutput (baseAssetReserve amm) swapAmount swapDirection
            (sqrtK amm * sqrtK amm);
        Some (newQuoteAssetReserve, newBaseAssetReserve)
      })"

section \<open>Repeg decision and state update\<close>

text \<open>
  \<open>targetPeg\<close> is the first value of \<open>newPeg\<close> in \<open>calculateNewAmm\<close>, and
  \<open>repegBudget\<close> its \<open>budget\<close>.
\<close>

definition targetPeg :: "numericConstants \<Rightarrow> AMM \<Rightarrow> OraclePriceData \<Rightarrow> int option" where
  "targetPeg c amm oraclePriceData = do {
     implied \<leftarrow> bn_div (price oraclePriceData * baseAssetReserve amm) (quoteAssetReserve amm);
     unit \<leftarrow> bn_div (MARK_PRICE_PRECISION c) (PEG_PRECISION c);
     half \<leftarrow> bn_div unit 2;
     bn_div (implied + half) unit
   }"

definition repegBudget :: "AMM \<Rightarrow> int option" where
  "repegBudget amm = do {
     totalFeeLB \<leftarrow> bn_div (totalExchangeFee amm) 2;
     Some (max 0 (totalFeeMinusDistributions amm - totalFeeLB))
   }"

definition directionToClose :: "AMM \<Rightarrow> PositionDirection" where
  "directionToClose amm = (if 0 < netBaseAssetAmount amm then SHORT else LONG)"

text \<open>The result is \<open>(prePegCost, pKNumer, pKDenom, newPeg)\<close>.\<close>

definition calculateNewAmm ::
  "numericConstants \<Rightarrow> repegFunctions \<Rightarrow> AMM \<Rightarrow> OraclePriceData \<Rightarrow> (int \<times> int \<times> int \<times> int) option" where
  "calculateNewAmm c r amm oraclePriceData = do {
     newPeg \<leftarrow> targetPeg c amm oraclePriceData;
     let prePegCost = calculateRepegCost r amm newPeg;
     budget \<leftarrow> repegBudget amm;
     if budget < prePegCost then do {
       let pKNumer = 999;
       let pKDenom = 1000;
       let deficitMadeup = calculateAdjustKCost r amm pKNumer pKDenom;
       if \<not> deficitMadeup \<le> 0 then None
       else do {
         let prePegCost = budget + abs deficitMadeup;
         newBase \<leftarrow> bn_div (baseAssetReserve amm * pKNumer) pKDenom;
         newSqrtK \<leftarrow> bn_div (sqrtK amm * pKNumer) pKDenom;
         let invariant = newSqrtK * newSqrtK;
         newQuote \<leftarrow> bn_div invariant newBase;
         let newAmm = amm\<lparr>baseAssetReserve := newBase, sqrtK := newSqrtK,
                           quoteAssetReserve := newQuote\<rparr>;
         (newQuoteAssetReserve, _) \<leftarrow>
           calculateAmmReservesAfterSwap c newAmm Base (abs (netBaseAssetAmount amm))
             (getSwapDirection Base (directionToClose amm));
         let newAmm = newAmm\<lparr>terminalQuoteAssetReserve := newQuoteAssetReserve\<rparr>;
         let newPeg = calculateBudgetedPeg r newAmm prePegCost (price oraclePriceData);
         let prePegCost = calculateRepegCost r newAmm newPeg;
         Some (prePegCost, pKNumer, pKDenom, newPeg)
       }
     } else Some (prePegCost, 1, 1, newPeg)
   }"

definition calculateUpdatedAMM ::
  "numericConstants \<Rightarrow> repegFunctions \<Rightarrow> AMM \<Rightarrow> OraclePriceData \<Rightarrow> AMM option" where
  "calculateUpdatedAMM c r amm oraclePriceData =
     (if curveUpdateIntensity amm = 0 then Some amm
      else do {
        (prepegCost, pKNumer, pKDenom, newPeg) \<leftarrow> calculateNewAmm c r amm oraclePriceData;
        newBase \<leftarrow> bn_div (baseAssetReserve amm * pKNumer) pKDenom;
        newSqrtK \<leftarrow> bn_div (sqrtK amm * pKNumer) pKDenom;
        let invariant = newSqrtK * newSqrtK;
        newQuote \<leftarrow> bn_div invariant newBase;
        let newAmm = amm\<lparr>baseAssetReserve := newBase, sqrtK := newSqrtK,
                          quoteAssetReserve := newQuote, pegMultiplier := newPeg\<rparr>;
        (newQuoteAssetReserve, _) \<leftarrow>
          calculateAmmReservesAfterSwap c newAmm Base (abs (netBaseAssetAmount amm))
            (getSwapDirection Base (directionToClose amm));
        Some (newAmm\<lparr>terminalQuoteAssetReserve := newQuoteAssetReserve,
                     totalFeeMinusDistributions :=
                       totalFeeMinusDistributions newAmm - prepegCost\<rparr>)
      })"

section \<open>Spreads\<close>

text \<open>
  \<open>calculateSpreadBN\<close> in its two steps: the oracle retreat, which gives
  \<open>(longSpread, shortSpread)\<close> before the inventory skew, and the inventory skew. The
  calls of \<open>console.log\<close> have no effect on the result and are left out.
\<close>

definition oracleRetreatBN :: "number \<Rightarrow> int \<Rightarrow> int \<Rightarrow> (number \<times> number) option" where
  "oracleRetreatBN baseSpread' lastOracleMarkSpreadPct lastOracleConfPct = do {
     longSpread \<leftarrow> fdiv baseSpread' 2;
     shortSpread \<leftarrow> fdiv baseSpread' 2;
     if 0 < lastOracleMarkSpreadPct then do {
       pct \<leftarrow> toNumber (abs lastOracleMarkSpreadPct);
       conf \<leftarrow> toNumber lastOracleConfPct;
       Some (longSpread, max shortSpread (fadd pct conf))
     } else if lastOracleMarkSpreadPct < 0 then do {
       pct \<leftarrow> toNumber (abs lastOracleMarkSpreadPct);
       conf \<leftarrow> toNumber lastOracleConfPct;
       Some (max longSpread (fadd pct conf), shortSpread)
     } else Some (longSpread, shortSpread)
   }"

definition capScale :: "number \<Rightarrow> number \<Rightarrow> number \<Rightarrow> number option" where
  \<comment> \<open>\<open>if (spreadScale * spread > maxTargetSpread)
        spreadScale = Math.max(1.05, maxTargetSpread / spread)\<close>\<close>
  "capScale spreadScale spread maxTargetSpread =
     (if maxTargetSpread < fmul spreadScale spread then do {
        ratio \<leftarrow> fdiv maxTargetSpread spread;
        Some (max lit_1_05 ratio)
      } else Some spreadScale)"

definition inventorySkewBN ::
  "numericConstants \<Rightarrow> number \<Rightarrow> number \<Rightarrow> int \<Rightarrow> int \<Rightarrow> int \<Rightarrow> int \<Rightarrow> int \<Rightarrow> int
     \<Rightarrow> (number \<times> number) option" where
  "inventorySkewBN c longSpread shortSpread quoteAssetReserve' terminalQuoteAssetReserve'
       pegMultiplier' netBaseAssetAmount' markPrice totalFeeMinusDistributions' = do {
     let MAX_INVENTORY_SKEW = 5;
     netBaseAssetValue \<leftarrow>
       bn_div ((quoteAssetReserve' - terminalQuoteAssetReserve') * pegMultiplier')
         (AMM_TIMES_PEG_TO_QUOTE_PRECISION_RATIO c);
     localBaseAssetValue \<leftarrow>
       bn_div (netBaseAssetAmount' * markPrice)
         (AMM_TO_QUOTE_PRECISION_RATIO c * MARK_PRICE_PRECISION c);
     precision \<leftarrow> toNumber (BID_ASK_SPREAD_PRECISION c);
     maxTargetSpread \<leftarrow> fdiv precision 50;
     if 0 < totalFeeMinusDistributions' then do {
       pnl \<leftarrow> toNumber (localBaseAssetValue - netBaseAssetValue);
       fee \<leftarrow> toNumber totalFeeMinusDistributions';
       leverage \<leftarrow> fdiv pnl (fadd fee 1);
       quotePrecision \<leftarrow> toNumber (QUOTE_PRECISION c);
       unit \<leftarrow> fdiv 1 quotePrecision;
       let effectiveLeverage = fadd leverage unit;
       let spreadScale = min MAX_INVENTORY_SKEW (fadd 1 effectiveLeverage);
       if 0 < netBaseAssetAmount' then do {
         spreadScale \<leftarrow> capScale spreadScale longSpread maxTargetSpread;
         Some (fmul longSpread spreadScale, shortSpread)
       } else do {
         spreadScale \<leftarrow> capScale spreadScale shortSpread maxTargetSpread;
         Some (longSpread, fmul shortSpread spreadScale)
       }
     } else Some (fmul longSpread MAX_INVENTORY_SKEW, fmul shortSpread MAX_INVENTORY_SKEW)
   }"

text \<open>The result is \<open>(longSpread, shortSpread)\<close>.\<close>

definition calculateSpreadBN ::
  "numericConstants \<Rightarrow> number \<Rightarrow> int \<Rightarrow> int \<Rightarrow> int \<Rightarrow> int \<Rightarrow> int \<Rightarrow> int \<Rightarrow> int \<Rightarrow> int
     \<Rightarrow> (number \<times> number) option" where
  "calculateSpreadBN c baseSpread' lastOracleMarkSpreadPct lastOracleConfPct quoteAssetReserve'
       terminalQuoteAssetReserve' pegMultiplier' netBaseAssetAmount' markPrice
       totalFeeMinusDistributions' = do {
     (longSpread, shortSpread) \<leftarrow>
       oracleRetreatBN baseSpread' lastOracleMarkSpreadPct lastOracleConfPct;
     inventorySkewBN c longSpread shortSpread quoteAssetReserve' terminalQuoteAssetReserve'
       pegMultiplier' netBaseAssetAmount' markPrice totalFeeMinusDistributions'
   }"

text \<open>
  \<open>calculateSpread\<close>, in the same two steps. \<open>oraclePriceData?.price || markPrice\<close>
  takes the mark price when \<open>oraclePriceData\<close> is undefined (\<open>None\<close>); a \<open>BN\<close> is an
  object and so is truthy whatever number it holds, and the oracle's price is taken
  whenever there is one.
\<close>

definition targetMarkSpreadPct ::
  "numericConstants \<Rightarrow> int \<Rightarrow> OraclePriceData option \<Rightarrow> int option" where
  "targetMarkSpreadPct c markPrice oraclePriceData =
     (let targetPrice = (case oraclePriceData of None \<Rightarrow> markPrice | Some d \<Rightarrow> price d)
      in bn_div ((markPrice - targetPrice) * BID_ASK_SPREAD_PRECISION c) markPrice)"

definition oracleRetreat ::
  "number \<Rightarrow> PositionDirection \<Rightarrow> int \<Rightarrow> number option" where
  "oracleRetreat spread direction pct =
     (if (direction = LONG \<and> pct < 0) \<or> (direction = SHORT \<and> 0 < pct) then do {
        retreat \<leftarrow> toNumber (abs pct);
        Some (max spread retreat)
      } else Some spread)"

definition inventorySkew :: "numericConstants \<Rightarrow> AMM \<Rightarrow> int \<Rightarrow> number \<Rightarrow> number option" where
  "inventorySkew c amm markPrice spread = do {
     let MAX_INVENTORY_SKEW = 5;
     let netCostBasis = quoteAssetAmountLong amm - quoteAssetAmountShort amm;
     netBaseAssetValue \<leftarrow>
       bn_div ((quoteAssetReserve amm - terminalQuoteAssetReserve amm) * pegMultiplier amm)
         (AMM_TIMES_PEG_TO_QUOTE_PRECISION_RATIO c);
     localBaseAssetValue \<leftarrow>
       bn_div (netBaseAssetAmount amm * markPrice)
         (AMM_TO_QUOTE_PRECISION_RATIO c * MARK_PRICE_PRECISION c);
     let netPnl = netBaseAssetValue - netCostBasis;
     let localPnl = localBaseAssetValue - netCostBasis;
     effectiveLeverage \<leftarrow>
       (if 0 < totalFeeMinusDistributions amm then do {
          pnl \<leftarrow> toNumber (localPnl - netPnl);
          fee \<leftarrow> toNumber (totalFeeMinusDistributions amm);
          fdiv pnl (fadd fee 1)
        } else Some MAX_INVENTORY_SKEW);
     let spreadScale = min MAX_INVENTORY_SKEW (fadd 1 effectiveLeverage);
     precision \<leftarrow> toNumber (BID_ASK_SPREAD_PRECISION c);
     maxTargetSpread \<leftarrow> fdiv precision 50;
     spreadScale \<leftarrow> capScale spreadScale spread maxTargetSpread;
     Some (fmul spread spreadScale)
   }"

definition skewApplies :: "AMM \<Rightarrow> PositionDirection \<Rightarrow> bool" where
  "skewApplies amm direction \<longleftrightarrow>
     (0 < netBaseAssetAmount amm \<and> direction = LONG) \<or>
     (netBaseAssetAmount amm < 0 \<and> direction = SHORT) \<or>
     totalFeeMinusDistributions amm = 0"

definition calculateSpread ::
  "numericConstants \<Rightarrow> AMM \<Rightarrow> PositionDirection \<Rightarrow> OraclePriceData option \<Rightarrow> number option" where
  "calculateSpread c amm direction oraclePriceData = do {
     spread \<leftarrow> fdiv (baseSpread amm) 2;
     if baseSpread amm = 0 \<or> curveUpdateIntensity amm = 0 then Some spread
     else do {
       markPrice \<leftarrow> calculatePrice c (baseAssetReserve amm) (quoteAssetReserve amm)
                      (pegMultiplier amm);
       pct \<leftarrow> targetMarkSpreadPct c markPrice oraclePriceData;
       spread \<leftarrow> oracleRetreat spread direction pct;
       if skewApplies amm direction then inventorySkew c amm markPrice spread
       else Some spread
     }
   }"

text \<open>The result is \<open>(baseAssetReserve, quoteAssetReserve)\<close>.\<close>

definition calculateSpreadReserves ::
  "numericConstants \<Rightarrow> AMM \<Rightarrow> PositionDirection \<Rightarrow> OraclePriceData option
     \<Rightarrow> (int \<times> int) option" where
  "calculateSpreadReserves c amm direction oraclePriceData = do {
     spread \<leftarrow> calculateSpread c amm direction oraclePriceData;
     if spread = 0 then Some (baseAssetReserve amm, quoteAssetReserve amm)
     else do {
       halfSpread \<leftarrow> fdiv spread 2;
       halfSpreadBN \<leftarrow> bn_of_number halfSpread;
       divisor \<leftarrow> bn_div (BID_ASK_SPREAD_PRECISION c) halfSpreadBN;
       quoteAsserReserveDelta \<leftarrow> bn_div (quoteAssetReserve amm) divisor;
       let quoteAssetReserve' =
             (if direction = LONG then quoteAssetReserve amm + quoteAsserReserveDelta
              else quoteAssetReserve amm - quoteAsserReserveDelta);
       baseAssetReserve' \<leftarrow> bn_div (sqrtK amm * sqrtK amm) quoteAssetReserve';
       Some (baseAssetReserve', quoteAssetReserve')
     }
   }"

section \<open>Largest trade up to a limit price\<close>

text \<open>
  Modelled from the spec: \<open>squareRootBN\<close> is imported from the package root and is not
  among the sources. The specification gives \<open>newBaseReserve = floor(sqrt(newBaseReserve\<^sup>2))\<close>,
  the floor of the square root, which \<open>floor_sqrt\<close> computes two bits at a time.
\<close>

function floor_sqrt :: "int \<Rightarrow> int" where
  "floor_sqrt n =
     (if n < 2 then n
      else let small = 2 * floor_sqrt (n div 4); large = small + 1
           in if n < large * large then small else large)"
  by pat_completeness auto
termination
  by (relation "measure nat") auto

declare floor_sqrt.simps [simp del]

text \<open>
  Modelled from the spec: \<open>squareRootBN\<close> is \<open>floor_sqrt\<close> on the arguments that have a
  square root; the specification gives no value on a negative argument, which is a
  failure here.
\<close>

definition squareRootBN :: "int \<Rightarrow> int option" where
  "squareRootBN n = (if n < 0 then None else Some (floor_sqrt n))"

definition calculateMaxBaseAssetAmountToTrade ::
  "numericConstants \<Rightarrow> AMM \<Rightarrow> int \<Rightarrow> PositionDirection \<Rightarrow> OraclePriceData option
     \<Rightarrow> (int \<times> PositionDirection) option" where
  "calculateMaxBaseAssetAmountToTrade c amm limit_price direction oraclePriceData = do {
     let invariant = sqrtK amm * sqrtK amm;
     scaled \<leftarrow> bn_div (invariant * MARK_PRICE_PRECISION c * pegMultiplier amm) limit_price;
     newBaseAssetReserveSquared \<leftarrow> bn_div scaled (PEG_PRECISION c);
     newBaseAssetReserve \<leftarrow> squareRootBN newBaseAssetReserveSquared;
     (baseAssetReserveBefore, _) \<leftarrow> calculateSpreadReserves c amm direction oraclePriceData;
     if baseAssetReserveBefore < newBaseAssetReserve
     then Some (newBaseAssetReserve - baseAssetReserveBefore, SHORT)
     else if newBaseAssetReserve < baseAssetReserveBefore
     then Some (baseAssetReserveBefore - newBaseAssetReserve, LONG)
     else Some (0, LONG)
   }"

section \<open>Worked examples: inputs\<close>

text \<open>
  The examples below take the decimal precisions: prices to \<open>10\<^sup>1\<^sup>0\<close>, the peg to
  \<open>10\<^sup>3\<close>, spreads and quote amounts to \<open>10\<^sup>6\<close>, reserves to \<open>10\<^sup>1\<^sup>3\<close>, which gives the
  two ratios \<open>10\<^sup>7\<close> and \<open>10\<^sup>1\<^sup>0\<close>.
\<close>

definition sdkConstants :: numericConstants where
  "sdkConstants =
     \<lparr>MARK_PRICE_PRECISION = 10000000000, PEG_PRECISION = 1000,
      BID_ASK_SPREAD_PRECISION = 1000000, AMM_TO_QUOTE_PRECISION_RATIO = 10000000,
      AMM_TIMES_PEG_TO_QUOTE_PRECISION_RATIO = 10000000000, QUOTE_PRECISION = 1000000\<rparr>"

text \<open>
  A balanced market of one unit of base asset at a peg of 1, with a base spread of 1000
  (0.1 percent) and a fee pool of one unit of quote precision.
\<close>

definition exampleAmm :: AMM where
  "exampleAmm =
     \<lparr>baseAssetReserve = 10000000000000, quoteAssetReserve = 10000000000000,
      sqrtK = 10000000000000, pegMultiplier = 1000, netBaseAssetAmount = 0,
      terminalQuoteAssetReserve = 10000000000000, totalExchangeFee = 0,
      totalFeeMinusDistributions = 1, quoteAssetAmountLong = 0, quoteAssetAmountShort = 0,
      baseSpread = 1000, curveUpdateIntensity = 100\<rparr>"

text \<open>
  Stand-ins for the cost primitives in the examples: a repeg costs the change of the
  peg, shrinking the depth frees one unit, and the budgeted peg moves the peg by the
  budget.
\<close>

definition exampleRepeg :: repegFunctions where
  "exampleRepeg =
     \<lparr>calculateRepegCost = (\<lambda>amm newPeg. newPeg - pegMultiplier amm),
      calculateAdjustKCost = (\<lambda>amm numer denom. - 1),
      calculateBudgetedPeg = (\<lambda>amm budget target. pegMultiplier amm + budget)\<rparr>"

text \<open>
  A small market with a net position of 50 whose terminal quote reserve is the one that
  closing the position gives (\<open>10000\<^sup>2 / (16000 + 50) = 6230\<close>), and a fee pool of one unit.
\<close>

definition skewedAmm :: AMM where
  "skewedAmm =
     \<lparr>baseAssetReserve = 16000, quoteAssetReserve = 6250, sqrtK = 10000,
      pegMultiplier = 500000000, netBaseAssetAmount = 50,
      terminalQuoteAssetReserve = 6230, totalExchangeFee = 0,
      totalFeeMinusDistributions = 1, quoteAssetAmountLong = 0, quoteAssetAmountShort = 0,
      baseSpread = 2, curveUpdateIntensity = 100\<rparr>"

section \<open>Rounding to a JavaScript number\<close>

text \<open>
  \<open>ilog2\<close> is the binary exponent of a positive rational, so the significand
  \<open>x / 2\<^bsup>ilog2 x - 52\<^esup>\<close> lies between \<open>2\<^sup>5\<^sup>2\<close> and \<open>2\<^sup>5\<^sup>3\<close>. From that: \<open>fl\<close> is
  monotone, it leaves every \<open>m * 2\<^sup>e\<close> with \<open>|m| < 2\<^sup>5\<^sup>3\<close> unchanged (in particular
  the integers and half-integers below \<open>2\<^sup>5\<^sup>3\<close>), and it moves a number by at most half a
  unit in the last place.
\<close>

lemma pow2_of_bitlen:
  assumes "0 < (p::int)"
  shows "(2::rat) powi (bitlen p - 1) \<le> of_int p" and "(of_int p :: rat) < 2 powi (bitlen p)"
proof -
  from assms have "bitlen p \<noteq> 0"
    by (simp add: bitlen_eq_zero_iff)
  with bitlen_nonneg [of p] have b: "0 < bitlen p"
    by simp
  from bitlen_bounds [OF assms] have lo: "2 ^ nat (bitlen p - 1) \<le> p" and hi: "p < 2 ^ nat (bitlen p)"
    by simp_all
  from lo have "(of_int (2 ^ nat (bitlen p - 1)) :: rat) \<le> of_int p"
    by (simp only: of_int_le_iff)
  with b show "(2::rat) powi (bitlen p - 1) \<le> of_int p"
    by (simp add: power_int_nonneg_exp)
  from hi have "(of_int p :: rat) < of_int (2 ^ nat (bitlen p))"
    by (simp only: of_int_less_iff)
  with b show "(of_int p :: rat) < 2 powi (bitlen p)"
    by (simp add: power_int_nonneg_exp)
qed

lemma ilog2_bounds:
  assumes "0 < x"
  shows "2 powi (ilog2 x) \<le> x \<and> x < 2 powi (ilog2 x + 1)"
proof -
  obtain p q where pq: "quotient_of x = (p, q)"
    by (cases "quotient_of x")
  then have q: "0 < q" and x: "x = of_int p / of_int q"
    by (simp_all add: quotient_of_denom_pos quotient_of_div)
  with assms have p: "0 < p"
    by (simp add: zero_less_divide_iff)
  define d where "d = bitlen p - bitlen q"
  have Q: "(0::rat) < of_int q"
    using q by simp
  have "x < 2 powi (bitlen p) / 2 powi (bitlen q - 1)"
  proof -
    have "x < 2 powi (bitlen p) / of_int q"
      unfolding x using pow2_of_bitlen(2) [OF p] Q by (simp add: divide_strict_right_mono)
    also have "\<dots> \<le> 2 powi (bitlen p) / 2 powi (bitlen q - 1)"
      using pow2_of_bitlen(1) [OF q] Q
      by (intro divide_left_mono) (simp_all add: zero_less_mult_iff zero_less_power_int)
    finally show ?thesis .
  qed
  also have "(2::rat) powi (bitlen p) / 2 powi (bitlen q - 1) = 2 powi (d + 1)"
    by (simp add: d_def power_int_diff [symmetric] algebra_simps)
  finally have hi: "x < 2 powi (d + 1)" .
  have "(2::rat) powi (d - 1) = 2 powi (bitlen p - 1) / 2 powi (bitlen q)"
    by (simp add: d_def power_int_diff [symmetric] algebra_simps)
  also have "\<dots> \<le> of_int p / 2 powi (bitlen q)"
    using pow2_of_bitlen(1) [OF p] by (simp add: divide_right_mono)
  also have "\<dots> < x"
    unfolding x using pow2_of_bitlen(2) [OF q] p Q
    by (intro divide_strict_left_mono) simp_all
  finally have lo: "2 powi (d - 1) < x" .
  have il: "ilog2 x = (if 2 powi d \<le> x then d else d - 1)"
    by (simp add: ilog2_def pq d_def Let_def)
  show ?thesis
  proof (cases "2 powi d \<le> x")
    case True
    with hi il show ?thesis by simp
  next
    case False
    with lo il show ?thesis by simp
  qed
qed

lemma pow2_le_iff: "(2::rat) powi a \<le> 2 powi b \<longleftrightarrow> a \<le> b"
proof
  assume le: "(2::rat) powi a \<le> 2 powi b"
  show "a \<le> b"
  proof (rule ccontr)
    assume "\<not> a \<le> b"
    then have "(2::rat) powi b < 2 powi a"
      by (intro power_int_strict_increasing) simp_all
    with le show False by simp
  qed
next
  assume "a \<le> b"
  then show "(2::rat) powi a \<le> 2 powi b"
    by (intro power_int_increasing) simp_all
qed

lemma pow2_less_iff: "(2::rat) powi a < 2 powi b \<longleftrightarrow> a < b"
  using pow2_le_iff [of b a] by (simp add: not_le [symmetric])

lemma ilog2_unique:
  assumes "2 powi k \<le> x" and "x < 2 powi (k + 1)"
  shows "ilog2 x = k"
proof -
  have "(0::rat) < 2 powi k"
    by simp
  from this assms(1) have pos: "0 < x"
    by (rule less_le_trans)
  from ilog2_bounds [OF pos] have lo: "2 powi (ilog2 x) \<le> x" and hi: "x < 2 powi (ilog2 x + 1)"
    by simp_all
  from lo assms(2) have "(2::rat) powi (ilog2 x) < 2 powi (k + 1)"
    by simp
  then have a: "ilog2 x < k + 1"
    by (simp only: pow2_less_iff)
  from assms(1) hi have "(2::rat) powi k < 2 powi (ilog2 x + 1)"
    by simp
  then have "k < ilog2 x + 1"
    by (simp only: pow2_less_iff)
  with a show ?thesis
    by simp
qed

lemma ilog2_mono:
  assumes "0 < x" and "x \<le> y"
  shows "ilog2 x \<le> ilog2 y"
proof -
  from assms have "0 < y" by simp
  from ilog2_bounds [OF assms(1)] ilog2_bounds [OF this] assms(2)
  have "(2::rat) powi (ilog2 x) < 2 powi (ilog2 y + 1)"
    by simp
  then have "ilog2 x < ilog2 y + 1"
    by (simp only: pow2_less_iff)
  then show ?thesis by simp
qed

lemma roundTiesToEven_of_int [simp]: "roundTiesToEven (of_int n) = n"
  by (simp add: roundTiesToEven_def)

lemma roundTiesToEven_cases:
  "roundTiesToEven y = \<lfloor>y\<rfloor> \<and> y - of_int \<lfloor>y\<rfloor> \<le> 1 / 2 \<or>
   roundTiesToEven y = \<lfloor>y\<rfloor> + 1 \<and> 1 / 2 \<le> y - of_int \<lfloor>y\<rfloor>"
  by (auto simp add: roundTiesToEven_def Let_def)

lemma roundTiesToEven_error: "abs (of_int (roundTiesToEven y) - y) \<le> 1 / 2"
proof -
  have "of_int \<lfloor>y\<rfloor> \<le> y" and "y < of_int \<lfloor>y\<rfloor> + 1"
    by linarith+
  with roundTiesToEven_cases [of y] show ?thesis
    by auto
qed

lemma roundTiesToEven_mono:
  assumes "y \<le> z"
  shows "roundTiesToEven y \<le> roundTiesToEven z"
proof (cases "\<lfloor>y\<rfloor> = \<lfloor>z\<rfloor>")
  case True
  with assms have "y - of_int \<lfloor>y\<rfloor> \<le> z - of_int \<lfloor>z\<rfloor>"
    by simp
  with True show ?thesis
    by (auto simp add: roundTiesToEven_def Let_def)
next
  case False
  with assms have "\<lfloor>y\<rfloor> + 1 \<le> \<lfloor>z\<rfloor>"
    using floor_mono [OF assms] by simp
  moreover from roundTiesToEven_cases [of y] have "roundTiesToEven y \<le> \<lfloor>y\<rfloor> + 1"
    by auto
  moreover from roundTiesToEven_cases [of z] have "\<lfloor>z\<rfloor> \<le> roundTiesToEven z"
    by auto
  ultimately show ?thesis
    by simp
qed

lemma fl_0 [simp]: "fl 0 = 0"
  by (simp add: fl_def)

lemma fl_minus: "fl (- x) = - fl x"
  by (simp add: fl_def Let_def)

lemma fl_pos:
  "0 < x \<Longrightarrow>
   fl x = of_int (roundTiesToEven (x / 2 powi (ilog2 x - 52))) * 2 powi (ilog2 x - 52)"
  by (simp add: fl_def Let_def)

lemma significand_bounds:
  assumes "0 < x"
  shows "2 ^ 52 \<le> x / 2 powi (ilog2 x - 52)" and "x / 2 powi (ilog2 x - 52) < 2 ^ 53"
proof -
  have q: "(0::rat) < 2 powi (ilog2 x - 52)"
    by simp
  have "(2::rat) ^ 52 * 2 powi (ilog2 x - 52) = 2 powi (ilog2 x)"
    by (simp add: power_int_diff)
  with ilog2_bounds [OF assms] have "2 ^ 52 * 2 powi (ilog2 x - 52) \<le> x"
    by simp
  with q show "2 ^ 52 \<le> x / 2 powi (ilog2 x - 52)"
    by (simp add: pos_le_divide_eq)
  have "(2::rat) ^ 53 * 2 powi (ilog2 x - 52) = 2 powi (ilog2 x + 1)"
    by (simp add: power_int_diff power_int_add)
  with ilog2_bounds [OF assms] have "x < 2 ^ 53 * 2 powi (ilog2 x - 52)"
    by simp
  with q show "x / 2 powi (ilog2 x - 52) < 2 ^ 53"
    by (simp add: pos_divide_less_eq)
qed

lemma roundTiesToEven_significand:
  assumes "0 < x"
  shows "2 ^ 52 \<le> roundTiesToEven (x / 2 powi (ilog2 x - 52))"
    and "roundTiesToEven (x / 2 powi (ilog2 x - 52)) \<le> 2 ^ 53"
proof -
  from significand_bounds [OF assms]
  have "of_int (2 ^ 52) \<le> x / 2 powi (ilog2 x - 52)"
    and "x / 2 powi (ilog2 x - 52) \<le> of_int (2 ^ 53)"
    by simp_all
  from roundTiesToEven_mono [OF this(1)] roundTiesToEven_mono [OF this(2)]
  show "2 ^ 52 \<le> roundTiesToEven (x / 2 powi (ilog2 x - 52))"
    and "roundTiesToEven (x / 2 powi (ilog2 x - 52)) \<le> 2 ^ 53"
    by (simp_all only: roundTiesToEven_of_int)
qed

lemma fl_bounds:
  assumes "0 < x"
  shows "2 powi (ilog2 x) \<le> fl x" and "fl x \<le> 2 powi (ilog2 x + 1)"
proof -
  have q: "(0::rat) < 2 powi (ilog2 x - 52)"
    by simp
  from roundTiesToEven_significand [OF assms]
  have "(of_int (2 ^ 52) :: rat) \<le> of_int (roundTiesToEven (x / 2 powi (ilog2 x - 52)))"
    and "(of_int (roundTiesToEven (x / 2 powi (ilog2 x - 52))) :: rat) \<le> of_int (2 ^ 53)"
    by (simp_all only: of_int_le_iff)
  with q have "2 ^ 52 * 2 powi (ilog2 x - 52) \<le> fl x"
    and "fl x \<le> 2 ^ 53 * 2 powi (ilog2 x - 52)"
    unfolding fl_pos [OF assms] by (simp_all add: mult_right_mono)
  moreover have "(2::rat) ^ 52 * 2 powi (ilog2 x - 52) = 2 powi (ilog2 x)"
    by (simp add: power_int_diff)
  moreover have "(2::rat) ^ 53 * 2 powi (ilog2 x - 52) = 2 powi (ilog2 x + 1)"
    by (simp add: power_int_diff power_int_add)
  ultimately show "2 powi (ilog2 x) \<le> fl x" and "fl x \<le> 2 powi (ilog2 x + 1)"
    by simp_all
qed

lemma fl_positive: "0 < x \<Longrightarrow> 0 < fl x"
proof -
  assume "0 < x"
  from fl_bounds(1) [OF this] have "2 powi (ilog2 x) \<le> fl x" .
  moreover have "(0::rat) < 2 powi (ilog2 x)"
    by simp
  ultimately show ?thesis
    by (rule less_le_trans [rotated])
qed

lemma fl_mono_pos:
  assumes "0 < x" and "x \<le> y"
  shows "fl x \<le> fl y"
proof (cases "ilog2 x = ilog2 y")
  case True
  from assms have y: "0 < y" by simp
  have "x / 2 powi (ilog2 y - 52) \<le> y / 2 powi (ilog2 y - 52)"
    using assms(2) by (simp add: divide_right_mono)
  from roundTiesToEven_mono [OF this]
  have "(of_int (roundTiesToEven (x / 2 powi (ilog2 y - 52))) :: rat) \<le>
      of_int (roundTiesToEven (y / 2 powi (ilog2 y - 52)))"
    by (simp only: of_int_le_iff)
  then show ?thesis
    unfolding fl_pos [OF assms(1)] fl_pos [OF y] True
    by (simp add: mult_right_mono)
next
  case False
  from assms have y: "0 < y" by simp
  from False ilog2_mono [OF assms] have "ilog2 x + 1 \<le> ilog2 y"
    by simp
  then have "(2::rat) powi (ilog2 x + 1) \<le> 2 powi (ilog2 y)"
    by (simp only: pow2_le_iff)
  with fl_bounds(2) [OF assms(1)] fl_bounds(1) [OF y] show ?thesis
    by simp
qed

lemma fl_mono:
  assumes "x \<le> y"
  shows "fl x \<le> fl y"
proof -
  consider "0 < x" | "x \<le> 0" "0 \<le> y" | "y < 0"
    by linarith
  then show ?thesis
  proof cases
    case 1
    from this assms show ?thesis by (rule fl_mono_pos)
  next
    case 2
    have "fl x \<le> 0"
    proof (cases "x = 0")
      case False
      with 2 have "0 < - x" by simp
      from fl_positive [OF this] show ?thesis by (simp add: fl_minus)
    qed simp
    moreover have "0 \<le> fl y"
    proof (cases "y = 0")
      case False
      with 2 have "0 < y" by simp
      from fl_positive [OF this] show ?thesis by simp
    qed simp
    ultimately show ?thesis by simp
  next
    case 3
    with assms have "0 < - y" and "- y \<le> - x"
      by simp_all
    from fl_mono_pos [OF this] show ?thesis
      by (simp add: fl_minus)
  qed
qed

lemma fl_exact_pos:
  assumes "0 < m" and "m < 2 ^ 53"
  shows "fl (of_int m * 2 powi e) = of_int m * 2 powi e"
proof -
  define x :: rat where "x = of_int m * 2 powi e"
  from assms(1) have pos: "0 < x"
    by (simp add: x_def)
  define L where "L = ilog2 x"
  from assms(2) have "(of_int m :: rat) < of_int (2 ^ 53)"
    by (simp only: of_int_less_iff)
  then have "x < 2 ^ 53 * 2 powi e"
    by (simp add: x_def)
  also have "\<dots> = 2 powi (53 + e)"
    by (simp add: power_int_add)
  finally have "x < 2 powi (53 + e)" .
  with ilog2_bounds [OF pos] have "(2::rat) powi L < 2 powi (53 + e)"
    by (simp add: L_def)
  then have "L < 53 + e"
    by (simp only: pow2_less_iff)
  then have n: "0 \<le> e - L + 52"
    by simp
  define n where "n = nat (e - L + 52)"
  have "x / 2 powi (L - 52) = of_int m * 2 powi (e - (L - 52))"
    by (simp add: x_def power_int_diff)
  also have "e - (L - 52) = int n"
    using n by (simp add: n_def)
  finally have y: "x / 2 powi (L - 52) = of_int (m * 2 ^ n)"
    by simp
  have "fl x = of_int (m * 2 ^ n) * 2 powi (L - 52)"
    unfolding fl_pos [OF pos] L_def [symmetric] y by (simp only: roundTiesToEven_of_int)
  also have "\<dots> = of_int m * (2 powi (int n) * 2 powi (L - 52))"
    by simp
  also have "2 powi (int n) * 2 powi (L - 52) = (2::rat) powi (int n + (L - 52))"
    by (simp add: power_int_add)
  also have "int n + (L - 52) = e"
    using n by (simp add: n_def)
  finally show ?thesis
    by (simp add: x_def)
qed

lemma fl_exact:
  assumes "abs m < 2 ^ 53"
  shows "fl (of_int m * 2 powi e) = of_int m * 2 powi e"
proof -
  consider "0 < m" | "m = 0" | "m < 0"
    by linarith
  then show ?thesis
  proof cases
    case 1
    with assms show ?thesis
      by (intro fl_exact_pos) simp_all
  next
    case 2
    then show ?thesis by simp
  next
    case 3
    with assms have "fl (of_int (- m) * 2 powi e) = of_int (- m) * 2 powi e"
      by (intro fl_exact_pos) simp_all
    then show ?thesis
      using fl_minus [of "of_int m * 2 powi e"] by simp
  qed
qed

lemma fl_of_int: "abs m < 2 ^ 53 \<Longrightarrow> fl (of_int m) = of_int m"
  using fl_exact [of m 0] by simp

lemma fl_half_of_int: "abs m < 2 ^ 53 \<Longrightarrow> fl (of_int m / 2) = of_int m / 2"
  using fl_exact [of m "- 1"] by (simp add: power_int_minus field_simps)

lemma fl_error_pos:
  assumes "0 < x"
  shows "abs (fl x - x) \<le> 2 powi (ilog2 x - 53)"
proof -
  define q :: rat where "q = 2 powi (ilog2 x - 52)"
  have q: "0 < q"
    by (simp add: q_def)
  then have "fl x - x = (of_int (roundTiesToEven (x / q)) - x / q) * q"
    unfolding fl_pos [OF assms] q_def [symmetric] by (simp add: algebra_simps)
  then have "abs (fl x - x) = abs (of_int (roundTiesToEven (x / q)) - x / q) * q"
    using q by (simp add: abs_mult)
  also have "\<dots> \<le> (1 / 2) * q"
    using q roundTiesToEven_error [of "x / q"] by (intro mult_right_mono) simp_all
  also have "(1 / 2) * q = 2 powi (ilog2 x - 53)"
    by (simp add: q_def power_int_diff)
  finally show ?thesis .
qed

lemma fl_error: "x \<noteq> 0 \<Longrightarrow> abs (fl x - x) \<le> 2 powi (ilog2 (abs x) - 53)"
proof (cases "0 < x")
  case True
  then show ?thesis
    using fl_error_pos [of x] by simp
next
  case False
  assume "x \<noteq> 0"
  with False have neg: "0 < - x"
    by simp
  have "abs (fl x - x) = abs (fl (- x) - (- x))"
    by (simp add: fl_minus)
  with fl_error_pos [OF neg] neg show ?thesis
    by simp
qed

lemma fl_idem: "fl (fl x) = fl x"
proof -
  have pos: "fl (fl x) = fl x" if "0 < x" for x
  proof -
    define m where "m = roundTiesToEven (x / 2 powi (ilog2 x - 52))"
    from roundTiesToEven_significand [OF that] have m: "2 ^ 52 \<le> m" "m \<le> 2 ^ 53"
      by (simp_all add: m_def)
    have eq: "fl x = of_int m * 2 powi (ilog2 x - 52)"
      by (simp add: fl_pos [OF that] m_def)
    show ?thesis
    proof (cases "m = 2 ^ 53")
      case True
      then have "fl x = of_int 1 * 2 powi (ilog2 x + 1)"
        by (simp add: eq power_int_diff power_int_add)
      moreover have "fl (of_int 1 * 2 powi (ilog2 x + 1)) = of_int 1 * 2 powi (ilog2 x + 1)"
        by (rule fl_exact) simp
      ultimately show ?thesis
        by simp
    next
      case False
      with m have "abs m < 2 ^ 53"
        by simp
      from fl_exact [OF this] show ?thesis
        by (simp add: eq)
    qed
  qed
  consider "0 < x" | "x = 0" | "0 < - x"
    by linarith
  then show ?thesis
  proof cases
    case 3
    from pos [OF this] show ?thesis
      by (simp add: fl_minus)
  qed (simp_all add: pos)
qed

lemma fl_1: "fl 1 = 1"
  using fl_of_int [of 1] by simp

lemma lit_1_05_ge_1: "1 \<le> lit_1_05"
proof -
  have "fl 1 \<le> fl (105 / 100)"
    by (rule fl_mono) simp
  then show ?thesis
    by (simp add: lit_1_05_def fl_1)
qed

section \<open>Truncating division\<close>

lemma bn_quot_nonneg: "0 \<le> a \<Longrightarrow> 0 < b \<Longrightarrow> bn_quot a b = a div b"
  by (simp add: bn_quot_def sgn_if)

lemma abs_bn_quot: "abs (bn_quot a b) = abs a div abs b"
  by (simp add: bn_quot_def abs_mult sgn_if pos_imp_zdiv_nonneg_iff)

lemma bn_quot_zero_iff: "bn_quot a b = 0 \<longleftrightarrow> abs a div abs b = 0"
  by (simp add: bn_quot_def sgn_if)

lemma sgn_bn_quot:
  assumes "abs a div abs b \<noteq> 0"
  shows "sgn (bn_quot a b) = sgn a * sgn b"
proof -
  have "0 \<le> abs a div abs b"
    by (simp add: div_int_pos_iff)
  with assms have "sgn (abs a div abs b) = 1"
    by simp
  then show ?thesis
    by (simp add: bn_quot_def sgn_mult)
qed

lemma bn_quot_bn_quot: "bn_quot (bn_quot a b) d = bn_quot a (b * d)"
proof (cases "abs a div abs b = 0")
  case True
  then have "abs a div (abs b * abs d) = 0"
    by (metis abs_ge_zero div_0 zdiv_zmult2_eq)
  with True show ?thesis
    by (simp add: bn_quot_def abs_mult)
next
  case False
  have "bn_quot (bn_quot a b) d = sgn a * sgn b * sgn d * ((abs a div abs b) div abs d)"
    unfolding bn_quot_def [of "bn_quot a b" d] sgn_bn_quot [OF False] abs_bn_quot ..
  also have "(abs a div abs b) div abs d = abs a div (abs b * abs d)"
    by (simp add: zdiv_zmult2_eq)
  finally show ?thesis
    by (simp add: bn_quot_def abs_mult sgn_mult mult.assoc)
qed

lemma floor_sqrt_bounds:
  "0 \<le> n \<Longrightarrow>
   0 \<le> floor_sqrt n \<and> floor_sqrt n * floor_sqrt n \<le> n \<and>
   n < (floor_sqrt n + 1) * (floor_sqrt n + 1)"
proof (induction n rule: floor_sqrt.induct)
  case (1 n)
  show ?case
  proof (cases "n < 2")
    case True
    then have "floor_sqrt n = n"
      by (subst floor_sqrt.simps) simp
    moreover from True \<open>0 \<le> n\<close> have "n = 0 \<or> n = 1"
      by auto
    ultimately show ?thesis by auto
  next
    case False
    define s where "s = floor_sqrt (n div 4)"
    from 1 False have IH: "0 \<le> s \<and> s * s \<le> n div 4 \<and> n div 4 < (s + 1) * (s + 1)"
      by (simp add: s_def)
    then have lo: "(2 * s) * (2 * s) \<le> n"
      by (simp add: algebra_simps; linarith)
    from IH have "n div 4 + 1 \<le> (s + 1) * (s + 1)"
      by simp
    then have hi: "n < (2 * s + 1 + 1) * (2 * s + 1 + 1)"
      by (simp add: algebra_simps; linarith)
    have eq: "floor_sqrt n = (if n < (2 * s + 1) * (2 * s + 1) then 2 * s else 2 * s + 1)"
      using False by (subst floor_sqrt.simps) (simp add: s_def Let_def)
    from IH lo hi show ?thesis
      unfolding eq by (auto simp: not_less)
  qed
qed

lemma bn_div_Some: "b \<noteq> 0 \<Longrightarrow> bn_div a b = Some (bn_quot a b)"
  by (simp add: bn_div_def)

section \<open>The price of a reserve pair\<close>

lemma calculatePrice_nonzero:
  assumes "PEG_PRECISION c \<noteq> 0" and "b \<noteq> 0"
  shows "calculatePrice c b q p =
           Some (bn_quot (q * MARK_PRICE_PRECISION c * p) (PEG_PRECISION c * b))"
  using assms by (simp add: calculatePrice_def bn_div_def bn_quot_bn_quot)

text \<open>
  C2 (as amended). With positive precisions, \<open>calculatePrice\<close> returns 0 for a base
  reserve of 0; for every other base reserve, negative ones too, it returns
  \<open>quote * MARK_PRICE_PRECISION * peg / (PEG_PRECISION * base)\<close> truncated toward zero;
  and for a positive base reserve and \<open>quote * peg \<ge> 0\<close> that is the floor of the
  quotient.
\<close>

theorem calculatePrice_formula:
  assumes "0 < PEG_PRECISION c" and "0 < MARK_PRICE_PRECISION c"
  shows "calculatePrice c 0 q p = Some 0 \<and>
         (b \<noteq> 0 \<longrightarrow> calculatePrice c b q p =
            Some (bn_quot (q * MARK_PRICE_PRECISION c * p) (PEG_PRECISION c * b))) \<and>
         (0 < b \<and> 0 \<le> q * p \<longrightarrow> calculatePrice c b q p =
            Some ((q * MARK_PRICE_PRECISION c * p) div (PEG_PRECISION c * b)))"
proof (intro conjI impI)
  show "calculatePrice c 0 q p = Some 0"
    by (simp add: calculatePrice_def)
next
  assume "b \<noteq> 0"
  with assms show "calculatePrice c b q p =
      Some (bn_quot (q * MARK_PRICE_PRECISION c * p) (PEG_PRECISION c * b))"
    by (simp add: calculatePrice_nonzero)
next
  assume pos: "0 < b \<and> 0 \<le> q * p"
  with assms have "0 \<le> q * p * MARK_PRICE_PRECISION c"
    by simp
  then have "0 \<le> q * MARK_PRICE_PRECISION c * p"
    by (simp add: mult.commute mult.left_commute)
  moreover from assms pos have "0 < PEG_PRECISION c * b"
    by simp
  ultimately have "bn_quot (q * MARK_PRICE_PRECISION c * p) (PEG_PRECISION c * b) =
      (q * MARK_PRICE_PRECISION c * p) div (PEG_PRECISION c * b)"
    by (rule bn_quot_nonneg)
  with assms pos show "calculatePrice c b q p =
      Some ((q * MARK_PRICE_PRECISION c * p) div (PEG_PRECISION c * b))"
    by (simp add: calculatePrice_nonzero)
qed

theorem calculatePrice_formula_witness:
  "0 < PEG_PRECISION sdkConstants \<and> 0 < MARK_PRICE_PRECISION sdkConstants \<and>
   (3::int) \<noteq> 0 \<and> (0 < (3::int) \<and> (0::int) \<le> 1 * 1000) \<and>
   calculatePrice sdkConstants 0 1 1000 = Some 0 \<and>
   calculatePrice sdkConstants 3 1 1000 = Some 3333333333"
  using calculatePrice_formula [of sdkConstants 1 1000 3]
  by (simp add: sdkConstants_def bn_quot_def)

theorem calculatePrice_negative_counterexample:
  "calculatePrice sdkConstants (- 1) 1 1000 = Some (- 10000000000) \<and>
   calculatePrice sdkConstants (- 1) 1 1000 \<noteq> Some 0 \<and>
   calculatePrice sdkConstants 3 (- 1) 1000 = Some (- 3333333333) \<and>
   calculatePrice sdkConstants 3 (- 1) 1000 \<noteq>
     Some ((- 1 * MARK_PRICE_PRECISION sdkConstants * 1000) div
           (PEG_PRECISION sdkConstants * 3))"
  by (simp add: calculatePrice_def bn_div_def bn_quot_def sdkConstants_def)

section \<open>Swap output\<close>

lemma calculateSwapOutput_Some:
  "(if dir = ADD then i + s else i - s) \<noteq> 0 \<Longrightarrow>
   calculateSwapOutput i s dir k =
     Some ((if dir = ADD then i + s else i - s),
           bn_quot k (if dir = ADD then i + s else i - s))"
  by (simp add: calculateSwapOutput_def bn_div_def Let_def)

text \<open>
  C6 (as amended). For a nonnegative invariant and a positive new input reserve,
  \<open>calculateSwapOutput\<close> returns \<open>(newInput, newOutput)\<close> with
  \<open>newInput * newOutput \<le> invariant < newInput * (newOutput + 1)\<close>.
\<close>

theorem calculateSwapOutput_product_bounds:
  assumes "0 \<le> swapAmount" and "0 \<le> invariant"
    and "0 < (if dir = ADD then i + swapAmount else i - swapAmount)"
  shows "\<exists>newIn newOut.
           calculateSwapOutput i swapAmount dir invariant = Some (newIn, newOut) \<and>
           newIn = (if dir = ADD then i + swapAmount else i - swapAmount) \<and>
           newIn * newOut \<le> invariant \<and> invariant < newIn * (newOut + 1)"
proof -
  define newIn where "newIn = (if dir = ADD then i + swapAmount else i - swapAmount)"
  from assms have pos: "0 < newIn"
    by (simp add: newIn_def)
  with assms have q: "bn_quot invariant newIn = invariant div newIn"
    by (simp add: bn_quot_nonneg)
  from pos have out: "calculateSwapOutput i swapAmount dir invariant =
      Some (newIn, invariant div newIn)"
    unfolding newIn_def q [unfolded newIn_def, symmetric]
    by (intro calculateSwapOutput_Some) simp
  have split: "newIn * (invariant div newIn) + invariant mod newIn = invariant"
    by simp
  have expand: "newIn * (invariant div newIn + 1) = newIn * (invariant div newIn) + newIn"
    by (simp add: distrib_left)
  from pos have "0 \<le> invariant mod newIn" and "invariant mod newIn < newIn"
    by simp_all
  with split expand have "newIn * (invariant div newIn) \<le> invariant"
    and "invariant < newIn * (invariant div newIn + 1)"
    by linarith+
  with out show ?thesis
    by (simp add: newIn_def)
qed

theorem calculateSwapOutput_product_bounds_witness:
  "(0::int) \<le> 3 \<and> (0::int) \<le> 100 \<and> 0 < (if ADD = ADD then 4 + 3 else 4 - (3::int)) \<and>
   calculateSwapOutput 4 3 ADD 100 = Some (7, 14)"
  using calculateSwapOutput_product_bounds [of 3 100 ADD 4]
  by auto

text \<open>
  For a negative invariant the quotient is rounded toward zero, that is upward, and the
  product of the new reserves exceeds the invariant.
\<close>

theorem calculateSwapOutput_negative_invariant_counterexample:
  "calculateSwapOutput 1 1 ADD (- 1) = Some (2, 0) \<and> \<not> (2 * 0 \<le> (- 1 :: int))"
  by (simp add: calculateSwapOutput_def bn_div_def bn_quot_def)

text \<open>
  C7 (as amended). Adding an amount to the input reserve and then removing the same
  amount, under one invariant, gives back the input reserve itself and the output reserve
  \<open>invariant / inputReserve\<close>. When the starting output reserve \<open>out\<close> is within the
  floor-division slack of the invariant (\<open>i * out \<le> k < i * (out + 1)\<close>), the round trip
  returns exactly the starting pair.
\<close>

theorem swap_round_trip_exact:
  assumes "i + s \<noteq> 0" and "i \<noteq> 0"
  shows "calculateSwapOutput i s ADD k = Some (i + s, bn_quot k (i + s)) \<and>
         calculateSwapOutput (i + s) s REMOVE k = Some (i, bn_quot k i) \<and>
         (0 < i \<and> i * out \<le> k \<and> k < i * (out + 1) \<and> 0 \<le> k \<longrightarrow>
            calculateSwapOutput (i + s) s REMOVE k = Some (i, out))"
proof (intro conjI impI)
  from assms show "calculateSwapOutput i s ADD k = Some (i + s, bn_quot k (i + s))"
    by (simp add: calculateSwapOutput_def bn_div_def Let_def)
  from assms show ret: "calculateSwapOutput (i + s) s REMOVE k = Some (i, bn_quot k i)"
    by (simp add: calculateSwapOutput_def bn_div_def Let_def)
  assume start: "0 < i \<and> i * out \<le> k \<and> k < i * (out + 1) \<and> 0 \<le> k"
  then have "bn_quot k i = k div i"
    by (simp add: bn_quot_nonneg)
  moreover have "k div i = out"
  proof (rule int_div_pos_eq)
    show "k = i * out + (k - i * out)" by simp
    from start show "0 \<le> k - i * out" by simp
    from start show "k - i * out < i" by (simp add: distrib_left)
  qed
  ultimately show "calculateSwapOutput (i + s) s REMOVE k = Some (i, out)"
    using ret by simp
qed

theorem swap_round_trip_exact_witness:
  "(2::int) + 1 \<noteq> 0 \<and> (2::int) \<noteq> 0 \<and>
   (0 < (2::int) \<and> (2::int) * 2 \<le> 5 \<and> (5::int) < 2 * (2 + 1) \<and> (0::int) \<le> 5) \<and>
   calculateSwapOutput 2 1 ADD 5 = Some (3, 1) \<and>
   calculateSwapOutput 3 1 REMOVE 5 = Some (2, 2)"
  using swap_round_trip_exact [of 2 1 5 2]
  by (simp add: bn_quot_def)

text \<open>
  The reserves \<open>(2, 2)\<close> with invariant 4: adding 1 and removing 1 ends on \<open>(2, 2)\<close>,
  with exact equality.
\<close>

theorem swap_round_trip_counterexample:
  "(2::int) * 2 = 4 \<and> calculateSwapOutput 2 0 ADD 4 = Some (2, 2) \<and>
   calculateSwapOutput 2 1 ADD 4 = Some (3, 1) \<and>
   calculateSwapOutput 3 1 REMOVE 4 = Some (2, 2)"
  by (simp add: calculateSwapOutput_def bn_div_def bn_quot_def)

section \<open>Repeg decision\<close>

lemma repegBudget_value:
  "repegBudget amm =
     Some (max 0 (totalFeeMinusDistributions amm - bn_quot (totalExchangeFee amm) 2))"
  by (simp add: repegBudget_def bn_div_def)

lemma targetPeg_value:
  assumes "quoteAssetReserve amm \<noteq> 0" and "PEG_PRECISION c \<noteq> 0"
    and "bn_quot (MARK_PRICE_PRECISION c) (PEG_PRECISION c) \<noteq> 0"
  shows "targetPeg c amm oraclePriceData =
     Some (bn_quot
       (bn_quot (price oraclePriceData * baseAssetReserve amm) (quoteAssetReserve amm) +
        bn_quot (bn_quot (MARK_PRICE_PRECISION c) (PEG_PRECISION c)) 2)
       (bn_quot (MARK_PRICE_PRECISION c) (PEG_PRECISION c)))"
  using assms by (simp add: targetPeg_def bn_div_def)

text \<open>
  C4. When the market has a quote reserve and the precisions give a peg unit, the
  candidate peg is \<open>(price * baseAssetReserve / quoteAssetReserve + unit / 2) / unit\<close> with
  \<open>unit = MARK_PRICE_PRECISION / PEG_PRECISION\<close>, the budget is
  \<open>max(0, totalFeeMinusDistributions - totalExchangeFee / 2)\<close>, and if the cost of moving
  to the candidate peg is within the budget, \<open>calculateNewAmm\<close> returns that cost,
  \<open>pKNumer = pKDenom = 1\<close> and the candidate peg itself. The cost function is an
  arbitrary parameter.
\<close>

theorem calculateNewAmm_within_budget:
  assumes "quoteAssetReserve amm \<noteq> 0" and "PEG_PRECISION c \<noteq> 0"
    and "bn_quot (MARK_PRICE_PRECISION c) (PEG_PRECISION c) \<noteq> 0"
  shows "\<exists>peg budget.
           peg = bn_quot
             (bn_quot (price oraclePriceData * baseAssetReserve amm) (quoteAssetReserve amm) +
              bn_quot (bn_quot (MARK_PRICE_PRECISION c) (PEG_PRECISION c)) 2)
             (bn_quot (MARK_PRICE_PRECISION c) (PEG_PRECISION c)) \<and>
           targetPeg c amm oraclePriceData = Some peg \<and>
           budget = max 0 (totalFeeMinusDistributions amm - bn_quot (totalExchangeFee amm) 2) \<and>
           repegBudget amm = Some budget \<and>
           (calculateRepegCost r amm peg \<le> budget \<longrightarrow>
              calculateNewAmm c r amm oraclePriceData =
                Some (calculateRepegCost r amm peg, 1, 1, peg))"
proof -
  define peg where "peg = bn_quot
    (bn_quot (price oraclePriceData * baseAssetReserve amm) (quoteAssetReserve amm) +
     bn_quot (bn_quot (MARK_PRICE_PRECISION c) (PEG_PRECISION c)) 2)
    (bn_quot (MARK_PRICE_PRECISION c) (PEG_PRECISION c))"
  from assms have peg: "targetPeg c amm oraclePriceData = Some peg"
    by (simp add: targetPeg_value peg_def)
  define budget where
    "budget = max 0 (totalFeeMinusDistributions amm - bn_quot (totalExchangeFee amm) 2)"
  have budget: "repegBudget amm = Some budget"
    by (simp add: repegBudget_value budget_def)
  have "calculateNewAmm c r amm oraclePriceData =
      Some (calculateRepegCost r amm peg, 1, 1, peg)"
    if "calculateRepegCost r amm peg \<le> budget"
    using that by (simp add: calculateNewAmm_def peg budget)
  with peg budget show ?thesis
    unfolding peg_def budget_def by blast
qed

theorem calculateNewAmm_within_budget_witness:
  "quoteAssetReserve (exampleAmm\<lparr>totalFeeMinusDistributions := 5\<rparr>) \<noteq> 0 \<and>
   PEG_PRECISION sdkConstants \<noteq> 0 \<and>
   bn_quot (MARK_PRICE_PRECISION sdkConstants) (PEG_PRECISION sdkConstants) \<noteq> 0 \<and>
   calculateRepegCost exampleRepeg (exampleAmm\<lparr>totalFeeMinusDistributions := 5\<rparr>) 1002 \<le> 5 \<and>
   targetPeg sdkConstants (exampleAmm\<lparr>totalFeeMinusDistributions := 5\<rparr>)
     \<lparr>price = 10020000000\<rparr> = Some 1002 \<and>
   repegBudget (exampleAmm\<lparr>totalFeeMinusDistributions := 5\<rparr>) = Some 5 \<and>
   calculateNewAmm sdkConstants exampleRepeg (exampleAmm\<lparr>totalFeeMinusDistributions := 5\<rparr>)
     \<lparr>price = 10020000000\<rparr> = Some (2, 1, 1, 1002)"
proof -
  define amm where "amm = exampleAmm\<lparr>totalFeeMinusDistributions := 5\<rparr>"
  have hyps: "quoteAssetReserve amm \<noteq> 0" "PEG_PRECISION sdkConstants \<noteq> 0"
    "bn_quot (MARK_PRICE_PRECISION sdkConstants) (PEG_PRECISION sdkConstants) \<noteq> 0"
    by (simp_all add: bn_quot_def sdkConstants_def exampleAmm_def amm_def)
  have peg: "bn_quot
      (bn_quot (price \<lparr>price = 10020000000\<rparr> * baseAssetReserve amm) (quoteAssetReserve amm) +
       bn_quot (bn_quot (MARK_PRICE_PRECISION sdkConstants) (PEG_PRECISION sdkConstants)) 2)
      (bn_quot (MARK_PRICE_PRECISION sdkConstants) (PEG_PRECISION sdkConstants)) = 1002"
    by (simp add: bn_quot_def sdkConstants_def exampleAmm_def amm_def)
  have budget: "max 0 (totalFeeMinusDistributions amm - bn_quot (totalExchangeFee amm) 2) = 5"
    by (simp add: bn_quot_def exampleAmm_def amm_def)
  have cost: "calculateRepegCost exampleRepeg amm 1002 = 2"
    by (simp add: exampleRepeg_def exampleAmm_def amm_def)
  from calculateNewAmm_within_budget [OF hyps, of "\<lparr>price = 10020000000\<rparr>" exampleRepeg]
  have "targetPeg sdkConstants amm \<lparr>price = 10020000000\<rparr> = Some 1002 \<and>
    repegBudget amm = Some 5 \<and>
    calculateNewAmm sdkConstants exampleRepeg amm \<lparr>price = 10020000000\<rparr> =
      Some (2, 1, 1, 1002)"
    unfolding peg budget by (simp add: cost)
  with hyps cost show ?thesis
    unfolding amm_def by simp
qed

lemma calculateNewAmm_ratio:
  assumes "calculateNewAmm c r amm oraclePriceData = Some (cost, kn, kd, peg)"
  shows "(kn = 1 \<and> kd = 1) \<or> (kn = 999 \<and> kd = 1000)"
  using assms
  by (auto simp add: calculateNewAmm_def bind_eq_Some_conv Let_def split: if_splits)

section \<open>State update\<close>

lemma calculateUpdatedAMM_returns:
  assumes "curveUpdateIntensity amm \<noteq> 0"
    and "calculateNewAmm c r amm oraclePriceData = Some (cost, kn, kd, peg)"
    and "bn_quot (baseAssetReserve amm * kn) kd \<noteq> 0"
    and "bn_quot (baseAssetReserve amm * kn) kd + netBaseAssetAmount amm \<noteq> 0"
  shows "\<exists>newAmm. calculateUpdatedAMM c r amm oraclePriceData = Some newAmm"
proof -
  from calculateNewAmm_ratio [OF assms(2)] have kd: "kd \<noteq> 0"
    by auto
  show ?thesis
  proof (cases "0 < netBaseAssetAmount amm")
    case True
    with assms kd show ?thesis
      by (simp add: calculateUpdatedAMM_def calculateAmmReservesAfterSwap_def
          calculateSwapOutput_def bn_div_def Let_def getSwapDirection_def directionToClose_def)
  next
    case False
    with assms kd show ?thesis
      by (simp add: calculateUpdatedAMM_def calculateAmmReservesAfterSwap_def
          calculateSwapOutput_def bn_div_def Let_def getSwapDirection_def directionToClose_def)
  qed
qed

text \<open>
  C5. With \<open>curveUpdateIntensity \<noteq> 0\<close>, a state returned by \<open>calculateUpdatedAMM\<close> has
  the base reserve and \<open>sqrtK\<close> of the input scaled by the ratio that \<open>calculateNewAmm\<close>
  returns, a nonzero base reserve, and the quote reserve \<open>sqrtK * sqrtK / baseAssetReserve\<close>
  of its own \<open>sqrtK\<close> and base reserve: as BN division in general, and as floor
  division when the base reserve of the input is positive.
\<close>

theorem calculateUpdatedAMM_quote_reserve:
  assumes "curveUpdateIntensity amm \<noteq> 0"
    and "calculateUpdatedAMM c r amm oraclePriceData = Some newAmm"
  shows "\<exists>cost kn kd peg.
           calculateNewAmm c r amm oraclePriceData = Some (cost, kn, kd, peg) \<and>
           baseAssetReserve newAmm = bn_quot (baseAssetReserve amm * kn) kd \<and>
           sqrtK newAmm = bn_quot (sqrtK amm * kn) kd \<and>
           baseAssetReserve newAmm \<noteq> 0 \<and>
           quoteAssetReserve newAmm =
             bn_quot (sqrtK newAmm * sqrtK newAmm) (baseAssetReserve newAmm) \<and>
           (0 < baseAssetReserve amm \<longrightarrow>
              0 < baseAssetReserve newAmm \<and>
              quoteAssetReserve newAmm =
                (sqrtK newAmm * sqrtK newAmm) div baseAssetReserve newAmm)"
proof -
  from assms obtain cost kn kd peg newBase newSqrtK newQuote terminal where
    new: "calculateNewAmm c r amm oraclePriceData = Some (cost, kn, kd, peg)"
    and base: "bn_div (baseAssetReserve amm * kn) kd = Some newBase"
    and sqrt: "bn_div (sqrtK amm * kn) kd = Some newSqrtK"
    and quote: "bn_div (newSqrtK * newSqrtK) newBase = Some newQuote"
    and result: "newAmm = amm\<lparr>baseAssetReserve := newBase, sqrtK := newSqrtK,
        quoteAssetReserve := newQuote, pegMultiplier := peg,
        terminalQuoteAssetReserve := terminal,
        totalFeeMinusDistributions := totalFeeMinusDistributions amm - cost\<rparr>"
    by (auto simp add: calculateUpdatedAMM_def bind_eq_Some_conv Let_def)
  from base have kd: "kd \<noteq> 0" and newBase: "newBase = bn_quot (baseAssetReserve amm * kn) kd"
    by (auto simp add: bn_div_def split: if_splits)
  from sqrt have newSqrtK: "newSqrtK = bn_quot (sqrtK amm * kn) kd"
    by (auto simp add: bn_div_def split: if_splits)
  from quote have nz: "newBase \<noteq> 0" and newQuote: "newQuote = bn_quot (newSqrtK * newSqrtK) newBase"
    by (auto simp add: bn_div_def split: if_splits)
  have floor: "0 < newBase \<and> newQuote = (newSqrtK * newSqrtK) div newBase"
    if pos: "0 < baseAssetReserve amm"
  proof -
    from calculateNewAmm_ratio [OF new] have "0 < kn" and "0 < kd"
      by auto
    with pos have "0 \<le> baseAssetReserve amm * kn"
      by simp
    with \<open>0 < kd\<close> have "newBase = (baseAssetReserve amm * kn) div kd"
      by (simp add: newBase bn_quot_nonneg)
    with \<open>0 \<le> baseAssetReserve amm * kn\<close> \<open>0 < kd\<close> have "0 \<le> newBase"
      by (simp add: pos_imp_zdiv_nonneg_iff)
    with nz have "0 < newBase"
      by simp
    then show ?thesis
      by (simp add: newQuote bn_quot_nonneg)
  qed
  from new newBase newSqrtK nz newQuote floor show ?thesis
    by (simp add: result)
qed

lemma exampleAmm_updated:
  "calculateUpdatedAMM sdkConstants exampleRepeg exampleAmm \<lparr>price = 10020000000\<rparr> =
     Some (exampleAmm\<lparr>baseAssetReserve := 9990000000000, sqrtK := 9990000000000,
       quoteAssetReserve := 9990000000000, pegMultiplier := 1002,
       terminalQuoteAssetReserve := 9990000000000, totalFeeMinusDistributions := - 1\<rparr>)"
  by code_simp

theorem calculateUpdatedAMM_quote_reserve_witness:
  "curveUpdateIntensity exampleAmm \<noteq> 0 \<and>
   (\<exists>newAmm. calculateUpdatedAMM sdkConstants exampleRepeg exampleAmm \<lparr>price = 10020000000\<rparr> =
      Some newAmm \<and>
      baseAssetReserve newAmm = 9990000000000 \<and> sqrtK newAmm = 9990000000000 \<and>
      0 < baseAssetReserve exampleAmm \<and>
      quoteAssetReserve newAmm = (sqrtK newAmm * sqrtK newAmm) div baseAssetReserve newAmm)"
proof -
  have on: "curveUpdateIntensity exampleAmm \<noteq> 0"
    by (simp add: exampleAmm_def)
  have pos: "0 < baseAssetReserve exampleAmm"
    by (simp add: exampleAmm_def)
  from calculateUpdatedAMM_quote_reserve [OF on exampleAmm_updated] pos on exampleAmm_updated
  show ?thesis
    by auto
qed

section \<open>Largest trade up to a limit price: the three cases\<close>

lemma squareRootBN_floor:
  assumes "0 \<le> x"
  shows "\<exists>n. squareRootBN x = Some n \<and> 0 \<le> n \<and> n * n \<le> x \<and> x < (n + 1) * (n + 1)"
  using assms floor_sqrt_bounds [of x] by (simp add: squareRootBN_def)

text \<open>
  C8. When the limit price is not zero, the radicand
  \<open>invariant * MARK_PRICE_PRECISION * peg / limit_price / PEG_PRECISION\<close> is not negative
  and the spread reserves of the direction have the base reserve \<open>b\<close>,
  \<open>calculateMaxBaseAssetAmountToTrade\<close> returns \<open>(n - b, SHORT)\<close> if \<open>n > b\<close>,
  \<open>(b - n, LONG)\<close> if \<open>n < b\<close> and \<open>(0, LONG)\<close> if \<open>n = b\<close>, where \<open>n\<close> is the floor
  of the square root of the radicand.
\<close>

theorem calculateMaxBaseAssetAmountToTrade_cases:
  assumes "limit_price \<noteq> 0" and "PEG_PRECISION c \<noteq> 0"
    and "0 \<le> bn_quot (bn_quot (sqrtK amm * sqrtK amm * MARK_PRICE_PRECISION c *
                 pegMultiplier amm) limit_price) (PEG_PRECISION c)"
    and "calculateSpreadReserves c amm direction oraclePriceData = Some (b, q)"
  shows "\<exists>n. 0 \<le> n \<and>
           n * n \<le> bn_quot (bn_quot (sqrtK amm * sqrtK amm * MARK_PRICE_PRECISION c *
                       pegMultiplier amm) limit_price) (PEG_PRECISION c) \<and>
           bn_quot (bn_quot (sqrtK amm * sqrtK amm * MARK_PRICE_PRECISION c *
             pegMultiplier amm) limit_price) (PEG_PRECISION c) < (n + 1) * (n + 1) \<and>
           calculateMaxBaseAssetAmountToTrade c amm limit_price direction oraclePriceData =
             Some (if b < n then (n - b, SHORT)
                   else if n < b then (b - n, LONG)
                   else (0, LONG))"
proof -
  define x where "x = bn_quot (bn_quot (sqrtK amm * sqrtK amm * MARK_PRICE_PRECISION c *
    pegMultiplier amm) limit_price) (PEG_PRECISION c)"
  from assms(3) have "0 \<le> x"
    by (simp add: x_def)
  from squareRootBN_floor [OF this] obtain n where
    n: "squareRootBN x = Some n" "0 \<le> n" "n * n \<le> x" "x < (n + 1) * (n + 1)"
    by blast
  from assms(1,2) n(1) assms(4)
  have "calculateMaxBaseAssetAmountToTrade c amm limit_price direction oraclePriceData =
      Some (if b < n then (n - b, SHORT) else if n < b then (b - n, LONG) else (0, LONG))"
    by (simp add: calculateMaxBaseAssetAmountToTrade_def bn_div_def Let_def x_def)
  with n show ?thesis
    unfolding x_def by blast
qed

lemma exampleAmm_spread_reserves:
  "calculateSpreadReserves sdkConstants exampleAmm LONG None =
     Some (9997500624843, 10002500000000)"
  by code_simp

lemma exampleAmm_max_trade:
  "calculateMaxBaseAssetAmountToTrade sdkConstants exampleAmm 10100000000 LONG None =
     Some (47128722744, LONG)"
  by code_simp

theorem calculateMaxBaseAssetAmountToTrade_cases_witness:
  "(10100000000::int) \<noteq> 0 \<and> PEG_PRECISION sdkConstants \<noteq> 0 \<and>
   0 \<le> bn_quot (bn_quot (sqrtK exampleAmm * sqrtK exampleAmm *
     MARK_PRICE_PRECISION sdkConstants * pegMultiplier exampleAmm) 10100000000)
     (PEG_PRECISION sdkConstants) \<and>
   calculateSpreadReserves sdkConstants exampleAmm LONG None =
     Some (9997500624843, 10002500000000) \<and>
   (\<exists>n. n * n \<le> 99009900990099009900990099 \<and> 99009900990099009900990099 < (n + 1) * (n + 1) \<and>
      calculateMaxBaseAssetAmountToTrade sdkConstants exampleAmm 10100000000 LONG None =
        Some (if 9997500624843 < n then (n - 9997500624843, SHORT)
              else if n < 9997500624843 then (9997500624843 - n, LONG)
              else (0, LONG)))"
proof -
  have radicand: "bn_quot (bn_quot (sqrtK exampleAmm * sqrtK exampleAmm *
      MARK_PRICE_PRECISION sdkConstants * pegMultiplier exampleAmm) 10100000000)
      (PEG_PRECISION sdkConstants) = 99009900990099009900990099"
    by (simp add: bn_quot_def sdkConstants_def exampleAmm_def)
  have hyps: "(10100000000::int) \<noteq> 0" "PEG_PRECISION sdkConstants \<noteq> 0"
    by (simp_all add: sdkConstants_def)
  have nonneg: "0 \<le> bn_quot (bn_quot (sqrtK exampleAmm * sqrtK exampleAmm *
      MARK_PRICE_PRECISION sdkConstants * pegMultiplier exampleAmm) 10100000000)
      (PEG_PRECISION sdkConstants)"
    unfolding radicand by simp
  from calculateMaxBaseAssetAmountToTrade_cases [OF hyps nonneg exampleAmm_spread_reserves]
  obtain n where "n * n \<le> 99009900990099009900990099"
    and "99009900990099009900990099 < (n + 1) * (n + 1)"
    and "calculateMaxBaseAssetAmountToTrade sdkConstants exampleAmm 10100000000 LONG None =
        Some (if 9997500624843 < n then (n - 9997500624843, SHORT)
              else if n < 9997500624843 then (9997500624843 - n, LONG)
              else (0, LONG))"
    unfolding radicand by blast
  then have "\<exists>n. n * n \<le> 99009900990099009900990099 \<and>
      99009900990099009900990099 < (n + 1) * (n + 1) \<and>
      calculateMaxBaseAssetAmountToTrade sdkConstants exampleAmm 10100000000 LONG None =
        Some (if 9997500624843 < n then (n - 9997500624843, SHORT)
              else if n < 9997500624843 then (9997500624843 - n, LONG)
              else (0, LONG))"
    by blast
  with hyps nonneg exampleAmm_spread_reserves show ?thesis
    by blast
qed

section \<open>Oracle retreat of \<open>calculateSpreadBN\<close>\<close>

lemma fdiv_2: "fdiv x 2 = Some (fl (x / 2))"
  by (simp add: fdiv_def)

lemma toNumber_Some: "abs x < 2 ^ 53 \<Longrightarrow> toNumber x = Some (of_int x)"
  by (simp add: toNumber_def)

lemma fl_6: "fl 6 = 6"
  by code_simp

text \<open>
  C10. When both arguments convert to numbers, the oracle retreat of \<open>calculateSpreadBN\<close>
  raises only the short spread, to \<open>max(baseSpread / 2, |pct| + conf)\<close>, for a positive
  \<open>lastOracleMarkSpreadPct\<close>, only the long spread for a negative one, and neither for
  zero; the other side stays at \<open>baseSpread / 2\<close>. These are the spreads that the
  inventory skew of \<open>calculateSpreadBN\<close> then scales.
\<close>

theorem calculateSpreadBN_oracle_retreat:
  assumes "abs lastOracleMarkSpreadPct < 2 ^ 53" and "abs lastOracleConfPct < 2 ^ 53"
  shows "\<exists>longSpread shortSpread.
           (longSpread, shortSpread) =
             (if 0 < lastOracleMarkSpreadPct
              then (fl (baseSpread' / 2),
                    max (fl (baseSpread' / 2))
                      (fadd (of_int (abs lastOracleMarkSpreadPct)) (of_int lastOracleConfPct)))
              else if lastOracleMarkSpreadPct < 0
              then (max (fl (baseSpread' / 2))
                      (fadd (of_int (abs lastOracleMarkSpreadPct)) (of_int lastOracleConfPct)),
                    fl (baseSpread' / 2))
              else (fl (baseSpread' / 2), fl (baseSpread' / 2))) \<and>
           oracleRetreatBN baseSpread' lastOracleMarkSpreadPct lastOracleConfPct =
             Some (longSpread, shortSpread) \<and>
           calculateSpreadBN c baseSpread' lastOracleMarkSpreadPct lastOracleConfPct q tq peg
               net mark fee =
             inventorySkewBN c longSpread shortSpread q tq peg net mark fee"
proof -
  from assms have pct: "toNumber (abs lastOracleMarkSpreadPct) =
      Some (of_int (abs lastOracleMarkSpreadPct))"
    by (simp add: toNumber_def)
  from assms have conf: "toNumber lastOracleConfPct = Some (of_int lastOracleConfPct)"
    by (simp add: toNumber_def)
  have "oracleRetreatBN baseSpread' lastOracleMarkSpreadPct lastOracleConfPct =
    Some (if 0 < lastOracleMarkSpreadPct
          then (fl (baseSpread' / 2),
                max (fl (baseSpread' / 2))
                  (fadd (of_int (abs lastOracleMarkSpreadPct)) (of_int lastOracleConfPct)))
          else if lastOracleMarkSpreadPct < 0
          then (max (fl (baseSpread' / 2))
                  (fadd (of_int (abs lastOracleMarkSpreadPct)) (of_int lastOracleConfPct)),
                fl (baseSpread' / 2))
          else (fl (baseSpread' / 2), fl (baseSpread' / 2)))"
    unfolding oracleRetreatBN_def fdiv_2 pct conf by simp
  then show ?thesis
    by (auto simp add: calculateSpreadBN_def)
qed

lemma fadd_750: "fadd 700 50 = 750"
  by code_simp

lemma fl_500: "fl 500 = 500"
  by code_simp

theorem calculateSpreadBN_oracle_retreat_witness:
  "abs (- 700 :: int) < 2 ^ 53 \<and> abs (50 :: int) < 2 ^ 53 \<and>
   oracleRetreatBN 1000 (- 700) 50 = Some (750, 500) \<and>
   oracleRetreatBN 1000 700 50 = Some (500, 750) \<and>
   oracleRetreatBN 1000 0 50 = Some (500, 500)"
  using calculateSpreadBN_oracle_retreat [of "- 700" 50 1000]
    calculateSpreadBN_oracle_retreat [of 700 50 1000]
    calculateSpreadBN_oracle_retreat [of 0 50 1000]
  by (simp add: fadd_750 fl_500)

section \<open>Inventory skew without a fee buffer\<close>

lemma min_5_fl_6: "min 5 (fadd 1 5) = (5 :: number)"
  by (simp add: fadd_def fl_6)

lemma inventorySkew_no_fee:
  assumes "AMM_TIMES_PEG_TO_QUOTE_PRECISION_RATIO c \<noteq> 0"
    and "AMM_TO_QUOTE_PRECISION_RATIO c * MARK_PRICE_PRECISION c \<noteq> 0"
    and "abs (BID_ASK_SPREAD_PRECISION c) < 2 ^ 53"
    and "\<not> 0 < totalFeeMinusDistributions amm"
  shows "inventorySkew c amm markPrice spread =
     do {
       spreadScale \<leftarrow> capScale 5 spread (fl (of_int (BID_ASK_SPREAD_PRECISION c) / 50));
       Some (fmul spread spreadScale)
     }"
  using assms
  by (simp add: inventorySkew_def bn_div_def toNumber_def fdiv_def min_5_fl_6)

lemma inventorySkewBN_no_fee:
  assumes "AMM_TIMES_PEG_TO_QUOTE_PRECISION_RATIO c \<noteq> 0"
    and "AMM_TO_QUOTE_PRECISION_RATIO c * MARK_PRICE_PRECISION c \<noteq> 0"
    and "abs (BID_ASK_SPREAD_PRECISION c) < 2 ^ 53"
    and "\<not> 0 < fee"
  shows "inventorySkewBN c longSpread shortSpread q tq peg net mark fee =
     Some (fmul longSpread 5, fmul shortSpread 5)"
  using assms
  by (simp add: inventorySkewBN_def bn_div_def toNumber_def fdiv_def)

lemma calculateSpread_steps:
  assumes "baseSpread amm \<noteq> 0" and "curveUpdateIntensity amm \<noteq> 0"
    and "calculatePrice c (baseAssetReserve amm) (quoteAssetReserve amm) (pegMultiplier amm) =
           Some markPrice"
    and "targetMarkSpreadPct c markPrice oraclePriceData = Some pct"
    and "oracleRetreat (fl (baseSpread amm / 2)) direction pct = Some spread"
  shows "calculateSpread c amm direction oraclePriceData =
     (if skewApplies amm direction then inventorySkew c amm markPrice spread else Some spread)"
  using assms by (simp add: calculateSpread_def fdiv_2)

text \<open>
  C3 (as amended). With \<open>totalFeeMinusDistributions \<le> 0\<close>, \<open>calculateSpreadBN\<close> returns
  both spreads of the oracle retreat multiplied by 5. With
  \<open>totalFeeMinusDistributions = 0\<close>, \<open>calculateSpread\<close> returns, for either direction, the
  spread of the oracle retreat multiplied by 5 when that product is at most
  \<open>maxTargetSpread = BID_ASK_SPREAD_PRECISION / 50\<close>, and multiplied by
  \<open>max(1.05, maxTargetSpread / spread)\<close> otherwise. The products are those of
  JavaScript numbers.
\<close>

theorem full_skew_without_fee_buffer:
  assumes "AMM_TIMES_PEG_TO_QUOTE_PRECISION_RATIO c \<noteq> 0"
    and "AMM_TO_QUOTE_PRECISION_RATIO c * MARK_PRICE_PRECISION c \<noteq> 0"
    and "abs (BID_ASK_SPREAD_PRECISION c) < 2 ^ 53"
  shows "(fee \<le> 0 \<and>
          oracleRetreatBN baseSpread' lastOracleMarkSpreadPct lastOracleConfPct =
            Some (longSpread, shortSpread) \<longrightarrow>
          calculateSpreadBN c baseSpread' lastOracleMarkSpreadPct lastOracleConfPct q tq peg
              net mark fee =
            Some (fmul longSpread 5, fmul shortSpread 5)) \<and>
         (totalFeeMinusDistributions amm = 0 \<and>
          baseSpread amm \<noteq> 0 \<and> curveUpdateIntensity amm \<noteq> 0 \<and>
          calculatePrice c (baseAssetReserve amm) (quoteAssetReserve amm) (pegMultiplier amm) =
            Some markPrice \<and>
          targetMarkSpreadPct c markPrice oraclePriceData = Some pct \<and>
          oracleRetreat (fl (baseSpread amm / 2)) direction pct = Some spread \<and>
          spread \<noteq> 0 \<longrightarrow>
          calculateSpread c amm direction oraclePriceData =
            (if fmul 5 spread \<le> fl (of_int (BID_ASK_SPREAD_PRECISION c) / 50)
             then Some (fmul spread 5)
             else Some (fmul spread
               (max lit_1_05 (fl (fl (of_int (BID_ASK_SPREAD_PRECISION c) / 50) / spread))))))"
proof (intro conjI impI)
  assume "fee \<le> 0 \<and>
    oracleRetreatBN baseSpread' lastOracleMarkSpreadPct lastOracleConfPct =
      Some (longSpread, shortSpread)"
  with assms show "calculateSpreadBN c baseSpread' lastOracleMarkSpreadPct lastOracleConfPct
      q tq peg net mark fee = Some (fmul longSpread 5, fmul shortSpread 5)"
    by (simp add: calculateSpreadBN_def inventorySkewBN_no_fee)
next
  assume h: "totalFeeMinusDistributions amm = 0 \<and>
    baseSpread amm \<noteq> 0 \<and> curveUpdateIntensity amm \<noteq> 0 \<and>
    calculatePrice c (baseAssetReserve amm) (quoteAssetReserve amm) (pegMultiplier amm) =
      Some markPrice \<and>
    targetMarkSpreadPct c markPrice oraclePriceData = Some pct \<and>
    oracleRetreat (fl (baseSpread amm / 2)) direction pct = Some spread \<and>
    spread \<noteq> 0"
  then have skew: "skewApplies amm direction"
    by (simp add: skewApplies_def)
  from h have "calculateSpread c amm direction oraclePriceData =
      inventorySkew c amm markPrice spread"
    by (simp add: calculateSpread_steps skew)
  also from assms h have "\<dots> =
      do {
        spreadScale \<leftarrow> capScale 5 spread (fl (of_int (BID_ASK_SPREAD_PRECISION c) / 50));
        Some (fmul spread spreadScale)
      }"
    by (simp add: inventorySkew_no_fee)
  finally show "calculateSpread c amm direction oraclePriceData =
      (if fmul 5 spread \<le> fl (of_int (BID_ASK_SPREAD_PRECISION c) / 50)
       then Some (fmul spread 5)
       else Some (fmul spread
         (max lit_1_05 (fl (fl (of_int (BID_ASK_SPREAD_PRECISION c) / 50) / spread)))))"
    using h by (simp add: capScale_def fdiv_def not_le)
qed

lemma exampleAmm_price:
  "calculatePrice sdkConstants (baseAssetReserve exampleAmm) (quoteAssetReserve exampleAmm)
     (pegMultiplier exampleAmm) = Some 10000000000"
  by (simp add: calculatePrice_def bn_div_def bn_quot_def sdkConstants_def exampleAmm_def)

lemma fl_values:
  "fl 500 = 500" "fl 5000 = 5000" "fl 20000 = 20000"
  "fmul 5 500 = 2500" "fmul 500 5 = 2500" "fmul 750 5 = 3750" "fmul 5 5000 = 25000"
  by code_simp+

text \<open>
  For a half-integer spread below \<open>2\<^sup>5\<^sup>3 / 5\<close>, as an integer base spread and an integer
  spread percentage give, the JavaScript product with 5 is the exact product.
\<close>

lemma fmul_5_exact:
  assumes "abs (5 * n) < 2 ^ 53"
  shows "fmul (of_int n / 2) 5 = 5 * (of_int n / 2)"
proof -
  have "fmul (of_int n / 2) 5 = fl (of_int (5 * n) / 2)"
    by (simp add: fmul_def mult.commute)
  also have "\<dots> = of_int (5 * n) / 2"
    by (rule fl_half_of_int [OF assms])
  also have "\<dots> = 5 * (of_int n / 2)"
    by simp
  finally show ?thesis .
qed

theorem full_skew_without_fee_buffer_witness:
  "AMM_TIMES_PEG_TO_QUOTE_PRECISION_RATIO sdkConstants \<noteq> 0 \<and>
   AMM_TO_QUOTE_PRECISION_RATIO sdkConstants * MARK_PRICE_PRECISION sdkConstants \<noteq> 0 \<and>
   abs (BID_ASK_SPREAD_PRECISION sdkConstants) < 2 ^ 53 \<and>
   ((0::int) \<le> 0 \<and> oracleRetreatBN 1000 (- 700) 50 = Some (750, 500)) \<and>
   calculateSpreadBN sdkConstants 1000 (- 700) 50 10000000000000 10000000000000 1000 0
     10000000000 0 = Some (3750, 2500) \<and>
   (totalFeeMinusDistributions (exampleAmm\<lparr>totalFeeMinusDistributions := 0\<rparr>) = 0 \<and>
    baseSpread (exampleAmm\<lparr>totalFeeMinusDistributions := 0\<rparr>) \<noteq> 0 \<and>
    curveUpdateIntensity (exampleAmm\<lparr>totalFeeMinusDistributions := 0\<rparr>) \<noteq> 0 \<and>
    calculatePrice sdkConstants 10000000000000 10000000000000 1000 = Some 10000000000 \<and>
    targetMarkSpreadPct sdkConstants 10000000000 (Some \<lparr>price = 10000000000\<rparr>) = Some 0 \<and>
    oracleRetreat (fl (1000 / 2)) SHORT 0 = Some 500 \<and> (500 :: number) \<noteq> 0) \<and>
   calculateSpread sdkConstants (exampleAmm\<lparr>totalFeeMinusDistributions := 0\<rparr>) SHORT (Some \<lparr>price = 10000000000\<rparr>) =
     Some 2500"
proof -
  have cs: "AMM_TIMES_PEG_TO_QUOTE_PRECISION_RATIO sdkConstants \<noteq> 0"
    "AMM_TO_QUOTE_PRECISION_RATIO sdkConstants * MARK_PRICE_PRECISION sdkConstants \<noteq> 0"
    "abs (BID_ASK_SPREAD_PRECISION sdkConstants) < 2 ^ 53"
    by (simp_all add: sdkConstants_def)
  have retreatBN: "oracleRetreatBN 1000 (- 700) 50 = Some (750, 500)"
    by code_simp
  have price: "calculatePrice sdkConstants 10000000000000 10000000000000 1000 =
      Some 10000000000"
    by (simp add: calculatePrice_def bn_div_def bn_quot_def sdkConstants_def)
  have pct: "targetMarkSpreadPct sdkConstants 10000000000 (Some \<lparr>price = 10000000000\<rparr>) = Some 0"
    by (simp add: targetMarkSpreadPct_def bn_div_def bn_quot_def)
  have retreat: "oracleRetreat (fl (1000 / 2)) SHORT 0 = Some 500"
    by (simp add: oracleRetreat_def fl_values)
  have precision: "BID_ASK_SPREAD_PRECISION sdkConstants = 1000000"
    by (simp add: sdkConstants_def)
  note inst = full_skew_without_fee_buffer [OF cs,
      of 0 1000 "- 700" 50 750 500 10000000000000 10000000000000 1000 0 10000000000
         "exampleAmm\<lparr>totalFeeMinusDistributions := 0\<rparr>" 10000000000
         "Some \<lparr>price = 10000000000\<rparr>" 0 SHORT 500]
  from inst retreatBN
  have bn: "calculateSpreadBN sdkConstants 1000 (- 700) 50 10000000000000 10000000000000 1000 0
     10000000000 0 = Some (3750, 2500)"
    by (simp add: fl_values)
  from inst price pct retreat
  have "calculateSpread sdkConstants (exampleAmm\<lparr>totalFeeMinusDistributions := 0\<rparr>) SHORT (Some \<lparr>price = 10000000000\<rparr>) =
     Some 2500"
    by (simp add: exampleAmm_def precision fl_values)
  with cs retreatBN bn price pct retreat show ?thesis
    by (simp add: exampleAmm_def)
qed

text \<open>
  A base spread of 10000 and an oracle at the mark price: the spread before the skew is 5000 on both
  sides, five times that is above the 20000 of \<open>maxTargetSpread\<close>, and the spread
  returned is 20000, four times the spread before the skew.
\<close>

theorem capped_skew_counterexample:
  "totalFeeMinusDistributions
     (exampleAmm\<lparr>totalFeeMinusDistributions := 0, baseSpread := 10000\<rparr>) = 0 \<and>
   targetMarkSpreadPct sdkConstants 10000000000 (Some \<lparr>price = 10000000000\<rparr>) = Some 0 \<and>
   oracleRetreat (fl (10000 / 2)) LONG 0 = Some 5000 \<and>
   oracleRetreat (fl (10000 / 2)) SHORT 0 = Some 5000 \<and>
   calculateSpread sdkConstants
     (exampleAmm\<lparr>totalFeeMinusDistributions := 0, baseSpread := 10000\<rparr>) LONG
     (Some \<lparr>price = 10000000000\<rparr>) = Some 20000 \<and>
   calculateSpread sdkConstants
     (exampleAmm\<lparr>totalFeeMinusDistributions := 0, baseSpread := 10000\<rparr>) SHORT
     (Some \<lparr>price = 10000000000\<rparr>) = Some 20000 \<and>
   (20000 :: number) \<noteq> 5 * 5000"
  by code_simp

section \<open>The target price of \<open>calculateSpread\<close>\<close>

lemma bn_quot_mult_cancel: "m \<noteq> 0 \<Longrightarrow> bn_quot (m * b) m = b"
proof -
  assume m: "m \<noteq> 0"
  then have "abs (m * b) div abs m = abs b"
    by (simp add: abs_mult)
  moreover from m have "sgn m * sgn m = 1"
    by (simp add: sgn_if)
  then have "sgn (m * b) * sgn m = sgn b"
    by (simp add: sgn_mult mult.commute mult.left_commute)
  ultimately show ?thesis
    by (simp add: bn_quot_def sgn_mult_abs)
qed

text \<open>
  C9 (as amended). With no oracle price data and a mark price other than zero, the
  target price is the mark price, the spread percentage is 0, no oracle retreat is
  applied for either direction, and \<open>calculateSpread\<close> returns \<open>baseSpread / 2\<close>, scaled
  by the inventory skew where that applies. An oracle price of zero is not replaced:
  the spread percentage is then \<open>BID_ASK_SPREAD_PRECISION\<close>.
\<close>

theorem calculateSpread_without_oracle:
  assumes "baseSpread amm \<noteq> 0" and "curveUpdateIntensity amm \<noteq> 0"
    and "calculatePrice c (baseAssetReserve amm) (quoteAssetReserve amm) (pegMultiplier amm) =
           Some markPrice"
    and "markPrice \<noteq> 0"
  shows "targetMarkSpreadPct c markPrice None = Some 0 \<and>
         oracleRetreat (fl (baseSpread amm / 2)) direction 0 = Some (fl (baseSpread amm / 2)) \<and>
         calculateSpread c amm direction None =
           (if skewApplies amm direction
            then inventorySkew c amm markPrice (fl (baseSpread amm / 2))
            else Some (fl (baseSpread amm / 2))) \<and>
         targetMarkSpreadPct c markPrice (Some \<lparr>price = 0\<rparr>) =
           Some (BID_ASK_SPREAD_PRECISION c)"
proof (intro conjI)
  from assms(4) show pct: "targetMarkSpreadPct c markPrice None = Some 0"
    by (simp add: targetMarkSpreadPct_def bn_div_def bn_quot_def)
  show retreat: "oracleRetreat (fl (baseSpread amm / 2)) direction 0 =
      Some (fl (baseSpread amm / 2))"
    by (simp add: oracleRetreat_def)
  from calculateSpread_steps [OF assms(1,2,3) pct retreat]
  show "calculateSpread c amm direction None =
      (if skewApplies amm direction
       then inventorySkew c amm markPrice (fl (baseSpread amm / 2))
       else Some (fl (baseSpread amm / 2)))" .
  from assms(4) show "targetMarkSpreadPct c markPrice (Some \<lparr>price = 0\<rparr>) =
      Some (BID_ASK_SPREAD_PRECISION c)"
    by (simp add: targetMarkSpreadPct_def bn_div_def bn_quot_mult_cancel)
qed

theorem calculateSpread_without_oracle_witness:
  "baseSpread exampleAmm \<noteq> 0 \<and> curveUpdateIntensity exampleAmm \<noteq> 0 \<and>
   calculatePrice sdkConstants (baseAssetReserve exampleAmm) (quoteAssetReserve exampleAmm)
     (pegMultiplier exampleAmm) = Some 10000000000 \<and>
   (10000000000 :: int) \<noteq> 0 \<and>
   \<not> skewApplies exampleAmm SHORT \<and>
   calculateSpread sdkConstants exampleAmm SHORT None = Some 500"
proof -
  have on: "baseSpread exampleAmm \<noteq> 0" "curveUpdateIntensity exampleAmm \<noteq> 0"
    by (simp_all add: exampleAmm_def)
  have flat: "\<not> skewApplies exampleAmm SHORT"
    by (simp add: skewApplies_def exampleAmm_def)
  have half: "fl (baseSpread exampleAmm / 2) = 500"
    by (simp add: exampleAmm_def fl_values)
  from calculateSpread_without_oracle [OF on exampleAmm_price, of SHORT] flat half
  have "calculateSpread sdkConstants exampleAmm SHORT None = Some 500"
    by simp
  with on exampleAmm_price flat show ?thesis
    by simp
qed

text \<open>
  An oracle price of zero, quoting short: the half-spread is the full
  \<open>BID_ASK_SPREAD_PRECISION\<close>, not the 500 of the base spread.
\<close>

theorem zero_oracle_price_counterexample:
  "calculateSpread sdkConstants exampleAmm SHORT (Some \<lparr>price = 0\<rparr>) = Some 1000000 \<and>
   calculateSpread sdkConstants exampleAmm SHORT None = Some 500"
  by code_simp

section \<open>Oracle retreat under a negative effective leverage\<close>

lemma fmul_ge_left:
  assumes "0 \<le> a" and "fl a = a" and "1 \<le> s"
  shows "a \<le> fmul a s"
proof -
  from assms(1,3) have "a * 1 \<le> a * s"
    by (intro mult_left_mono)
  then have "fl a \<le> fl (a * s)"
    by (intro fl_mono) simp
  with assms(2) show ?thesis
    by (simp add: fmul_def)
qed

lemma capScale_ge_1:
  assumes "capScale scale spread maxTargetSpread = Some scale'" and "1 \<le> scale"
  shows "1 \<le> scale'"
  using assms lit_1_05_ge_1
  by (auto simp add: capScale_def bind_eq_Some_conv split: if_splits)

lemma effective_leverage_nonneg:
  assumes "0 \<le> pnl" and "0 < fee"
    and "toNumber pnl = Some p" and "toNumber fee = Some f" and "fdiv p (fadd f 1) = Some e"
  shows "0 \<le> e"
proof -
  from assms(1,3) have p: "0 \<le> p"
    by (auto simp add: toNumber_def split: if_splits)
  from assms(2,4) have "0 \<le> f + 1"
    by (auto simp add: toNumber_def split: if_splits)
  then have "fl 0 \<le> fl (f + 1)"
    by (rule fl_mono)
  then have "0 \<le> fadd f 1"
    by (simp add: fadd_def)
  with p have "0 \<le> p / fadd f 1"
    by simp
  then have "fl 0 \<le> fl (p / fadd f 1)"
    by (rule fl_mono)
  with assms(5) show ?thesis
    by (auto simp add: fdiv_def split: if_splits)
qed

lemma spreadScale_ge_1:
  assumes "0 \<le> e"
  shows "1 \<le> min 5 (fadd 1 e)"
proof -
  from assms have "fl 1 \<le> fl (1 + e)"
    by (intro fl_mono) simp
  then show ?thesis
    by (simp add: fadd_def fl_1)
qed

lemma inventorySkew_not_below:
  assumes "inventorySkew c amm markPrice spread = Some s"
    and "0 \<le> spread" and "fl spread = spread"
    and "totalFeeMinusDistributions amm \<le> 0 \<or>
         bn_quot ((quoteAssetReserve amm - terminalQuoteAssetReserve amm) * pegMultiplier amm)
           (AMM_TIMES_PEG_TO_QUOTE_PRECISION_RATIO c) \<le>
         bn_quot (netBaseAssetAmount amm * markPrice)
           (AMM_TO_QUOTE_PRECISION_RATIO c * MARK_PRICE_PRECISION c)"
  shows "spread \<le> s"
proof -
  from assms(1) obtain netValue localValue e precision maxTargetSpread scale where
    net: "bn_div ((quoteAssetReserve amm - terminalQuoteAssetReserve amm) * pegMultiplier amm)
        (AMM_TIMES_PEG_TO_QUOTE_PRECISION_RATIO c) = Some netValue"
    and local: "bn_div (netBaseAssetAmount amm * markPrice)
        (AMM_TO_QUOTE_PRECISION_RATIO c * MARK_PRICE_PRECISION c) = Some localValue"
    and lev: "(if 0 < totalFeeMinusDistributions amm then do {
          pnl \<leftarrow> toNumber
            (localValue - (quoteAssetAmountLong amm - quoteAssetAmountShort amm) -
             (netValue - (quoteAssetAmountLong amm - quoteAssetAmountShort amm)));
          fee \<leftarrow> toNumber (totalFeeMinusDistributions amm);
          fdiv pnl (fadd fee 1)
        } else Some 5) = Some e"
    and cap: "capScale (min 5 (fadd 1 e)) spread maxTargetSpread = Some scale"
    and s: "s = fmul spread scale"
    by (auto simp add: inventorySkew_def bind_eq_Some_conv Let_def)
  have "0 \<le> e"
  proof (cases "0 < totalFeeMinusDistributions amm")
    case True
    have "localValue - (quoteAssetAmountLong amm - quoteAssetAmountShort amm) -
        (netValue - (quoteAssetAmountLong amm - quoteAssetAmountShort amm)) =
        localValue - netValue"
      by simp
    with True lev obtain p f where p: "toNumber (localValue - netValue) = Some p"
      and f: "toNumber (totalFeeMinusDistributions amm) = Some f"
      and e: "fdiv p (fadd f 1) = Some e"
      by (auto simp add: bind_eq_Some_conv)
    from True assms(4) net local have "0 \<le> localValue - netValue"
      by (auto simp add: bn_div_def split: if_splits)
    from effective_leverage_nonneg [OF this True p f e] show ?thesis .
  next
    case False
    with lev show ?thesis by simp
  qed
  then have "1 \<le> min 5 (fadd 1 e)"
    by (rule spreadScale_ge_1)
  with cap have "1 \<le> scale"
    by (rule capScale_ge_1)
  with assms(2,3) show ?thesis
    unfolding s by (rule fmul_ge_left)
qed

lemma oracleRetreat_value:
  assumes "oracleRetreat spread direction pct = Some spread'"
    and "(direction = LONG \<and> pct < 0) \<or> (direction = SHORT \<and> 0 < pct)"
  shows "abs pct < 2 ^ 53 \<and> spread' = max spread (of_int (abs pct))"
  using assms
  by (auto simp add: oracleRetreat_def toNumber_def bind_eq_Some_conv split: if_splits)

text \<open>
  Where the oracle retreat applies, the half-spread returned is at least the magnitude of
  the spread percentage as long as the effective leverage is not negative: there is no
  fee buffer, or the net value of the position is at most its local value.
\<close>

lemma calculateSpread_retreat_floor:
  assumes "calculateSpread c amm direction oraclePriceData = Some s"
    and "baseSpread amm \<noteq> 0" and "curveUpdateIntensity amm \<noteq> 0"
    and "calculatePrice c (baseAssetReserve amm) (quoteAssetReserve amm) (pegMultiplier amm) =
           Some markPrice"
    and "targetMarkSpreadPct c markPrice oraclePriceData = Some pct"
    and "(direction = LONG \<and> pct < 0) \<or> (direction = SHORT \<and> 0 < pct)"
    and "totalFeeMinusDistributions amm \<le> 0 \<or>
         bn_quot ((quoteAssetReserve amm - terminalQuoteAssetReserve amm) * pegMultiplier amm)
           (AMM_TIMES_PEG_TO_QUOTE_PRECISION_RATIO c) \<le>
         bn_quot (netBaseAssetAmount amm * markPrice)
           (AMM_TO_QUOTE_PRECISION_RATIO c * MARK_PRICE_PRECISION c)"
  shows "of_int (abs pct) \<le> s"
proof -
  from assms(1-5) obtain spread where
    retreat: "oracleRetreat (fl (baseSpread amm / 2)) direction pct = Some spread"
    and s: "(if skewApplies amm direction then inventorySkew c amm markPrice spread
             else Some spread) = Some s"
    by (auto simp add: calculateSpread_def fdiv_2 bind_eq_Some_conv)
  from oracleRetreat_value [OF retreat assms(6)]
  have small: "abs pct < 2 ^ 53"
    and spread: "spread = max (fl (baseSpread amm / 2)) (of_int (abs pct))"
    by simp_all
  have floor: "of_int (abs pct) \<le> spread"
    by (simp add: spread)
  have "(0::rat) \<le> of_int (abs pct)"
    by simp
  from this floor have nonneg: "0 \<le> spread"
    by (rule order_trans)
  from small have "fl (of_int (abs pct)) = of_int (abs pct)"
    by (intro fl_of_int) simp
  then have double: "fl spread = spread"
    unfolding spread by (simp add: max_def fl_idem)
  show ?thesis
  proof (cases "skewApplies amm direction")
    case True
    with s have "inventorySkew c amm markPrice spread = Some s"
      by simp
    from inventorySkew_not_below [OF this nonneg double assms(7)] floor show ?thesis
      by simp
  next
    case False
    with s floor show ?thesis
      by simp
  qed
qed

text \<open>
  The state \<open>skewedAmm\<close> is one that the update produces: its quote reserve is
  \<open>sqrtK * sqrtK / baseAssetReserve\<close>, and its terminal quote reserve is the quote
  reserve after closing the net position.
\<close>

lemma skewedAmm_consistent:
  "bn_div (sqrtK skewedAmm * sqrtK skewedAmm) (baseAssetReserve skewedAmm) =
     Some (quoteAssetReserve skewedAmm) \<and>
   calculateAmmReservesAfterSwap sdkConstants skewedAmm Base
     (abs (netBaseAssetAmount skewedAmm))
     (getSwapDirection Base (directionToClose skewedAmm)) =
   Some (terminalQuoteAssetReserve skewedAmm, 16050)"
  by code_simp

text \<open>
  C1. Where the oracle retreat applies, the half-spread of \<open>calculateSpread\<close> is to be at
  least the magnitude of the spread percentage. Quoting long on \<open>skewedAmm\<close> with the
  oracle 0.01 percent above the mark, the spread percentage is \<open>-100\<close> and the oracle
  retreat raises the half-spread to 100; the local value of the position (0) is below
  its net value (1), the effective leverage is \<open>-1/2\<close>, the scale is \<open>1/2\<close>, and
  \<open>calculateSpread\<close> returns 50, half of the retreat.
\<close>

theorem oracle_retreat_scaled_down:
  "baseSpread skewedAmm \<noteq> 0 \<and> curveUpdateIntensity skewedAmm \<noteq> 0 \<and>
   calculatePrice sdkConstants (baseAssetReserve skewedAmm) (quoteAssetReserve skewedAmm)
     (pegMultiplier skewedAmm) = Some 1953125000000000 \<and>
   targetMarkSpreadPct sdkConstants 1953125000000000 (Some \<lparr>price = 1953320312500000\<rparr>) =
     Some (- 100) \<and>
   oracleRetreat (fl (baseSpread skewedAmm / 2)) LONG (- 100) = Some 100 \<and>
   calculateSpread sdkConstants skewedAmm LONG (Some \<lparr>price = 1953320312500000\<rparr>) = Some 50"
  by code_simp

end
